theory Spec2Isabelle
  imports Complex_Main
begin

section \<open>Numbers\<close>

text \<open>
  The program computes with pandas/numpy float64 values. Rounding and overflow are
  abstracted: a finite value is an exact real. What the program can observe of IEEE
  arithmetic beyond that is kept: the two infinities and NaN, with numpy's rules
  (\<open>x / 0\<close> is an infinity or NaN and never raises, every comparison with NaN is
  False). The sign of zero is not modelled.
\<close>

datatype fl = Fin real | PInf | MInf | NaN

fun fneg :: "fl \<Rightarrow> fl" where
  "fneg (Fin x) = Fin (- x)"
| "fneg PInf = MInf"
| "fneg MInf = PInf"
| "fneg NaN = NaN"

fun fadd :: "fl \<Rightarrow> fl \<Rightarrow> fl" where
  "fadd (Fin x) (Fin y) = Fin (x + y)"
| "fadd NaN b = NaN"
| "fadd a NaN = NaN"
| "fadd PInf MInf = NaN"
| "fadd MInf PInf = NaN"
| "fadd PInf b = PInf"
| "fadd a PInf = PInf"
| "fadd MInf b = MInf"
| "fadd a MInf = MInf"

definition fsub :: "fl \<Rightarrow> fl \<Rightarrow> fl" where
  "fsub a b = fadd a (fneg b)"

text \<open>An infinity times a finite value: the sign of the product, NaN for zero.\<close>

definition inf_times :: "bool \<Rightarrow> real \<Rightarrow> fl" where
  "inf_times positive y =
     (if y = 0 then NaN else if (0 < y) = positive then PInf else MInf)"

fun fmul :: "fl \<Rightarrow> fl \<Rightarrow> fl" where
  "fmul (Fin x) (Fin y) = Fin (x * y)"
| "fmul NaN b = NaN"
| "fmul a NaN = NaN"
| "fmul PInf (Fin y) = inf_times True y"
| "fmul MInf (Fin y) = inf_times False y"
| "fmul (Fin x) PInf = inf_times True x"
| "fmul (Fin x) MInf = inf_times False x"
| "fmul PInf PInf = PInf"
| "fmul MInf MInf = PInf"
| "fmul PInf MInf = MInf"
| "fmul MInf PInf = MInf"

fun fdiv :: "fl \<Rightarrow> fl \<Rightarrow> fl" where
  "fdiv (Fin x) (Fin y) =
     (if y \<noteq> 0 then Fin (x / y)
      else if x = 0 then NaN else if 0 < x then PInf else MInf)"
| "fdiv NaN b = NaN"
| "fdiv a NaN = NaN"
| "fdiv (Fin x) PInf = Fin 0"
| "fdiv (Fin x) MInf = Fin 0"
| "fdiv PInf (Fin y) = (if 0 \<le> y then PInf else MInf)"
| "fdiv MInf (Fin y) = (if 0 \<le> y then MInf else PInf)"
| "fdiv PInf b = NaN"
| "fdiv MInf b = NaN"

fun fabs :: "fl \<Rightarrow> fl" where
  "fabs (Fin x) = Fin \<bar>x\<bar>"
| "fabs PInf = PInf"
| "fabs MInf = PInf"
| "fabs NaN = NaN"

fun flt :: "fl \<Rightarrow> fl \<Rightarrow> bool" where
  "flt (Fin x) (Fin y) = (x < y)"
| "flt (Fin x) PInf = True"
| "flt MInf (Fin y) = True"
| "flt MInf PInf = True"
| "flt a b = False"

definition fgt :: "fl \<Rightarrow> fl \<Rightarrow> bool" where
  "fgt a b = flt b a"

definition fge :: "fl \<Rightarrow> fl \<Rightarrow> bool" where
  "fge a b = (a \<noteq> NaN \<and> b \<noteq> NaN \<and> (a = b \<or> flt b a))"

section \<open>Series statistics\<close>

text \<open>
  A float64 cell is a finite reading or missing (NaN): \<open>real option\<close>.
  \<open>dropna\<close> keeps the readings, in order.
\<close>

fun dropna :: "real option list \<Rightarrow> real list" where
  "dropna [] = []"
| "dropna (None # xs) = dropna xs"
| "dropna (Some x # xs) = x # dropna xs"

text \<open>\<open>Series.mean()\<close> / \<open>ndarray.mean()\<close> of the readings: NaN when there are none.\<close>

definition mean :: "real list \<Rightarrow> fl" where
  "mean xs = (if xs = [] then NaN else Fin (sum_list xs / real (length xs)))"

text \<open>
  The standard deviation with \<open>ddof\<close> delta degrees of freedom: numpy's
  \<open>std\<close> has \<open>ddof = 0\<close>, pandas' \<open>Series.std()\<close> has \<open>ddof = 1\<close>. With no reading,
  or no more readings than \<open>ddof\<close>, the result is NaN.
\<close>

definition std :: "nat \<Rightarrow> real list \<Rightarrow> fl" where
  "std ddof xs =
     (if length xs \<le> ddof then NaN
      else let m = sum_list xs / real (length xs)
           in Fin (sqrt (sum_list (map (\<lambda>x. (x - m)\<^sup>2) xs) / real (length xs - ddof))))"

text \<open>\<open>Series.median()\<close>: the middle reading, or the mean of the two middle ones.\<close>

definition median :: "real list \<Rightarrow> real option" where
  "median xs =
     (let s = sort xs; n = length s
      in if n = 0 then None
         else if odd n then Some (s ! (n div 2))
         else Some ((s ! (n div 2 - 1) + s ! (n div 2)) / 2))"

text \<open>\<open>Series.max()\<close>.\<close>

definition maximum :: "real list \<Rightarrow> fl" where
  "maximum xs = (case xs of [] \<Rightarrow> NaN | x # rest \<Rightarrow> Fin (fold max rest x))"

text \<open>
  \<open>Series.quantile(q)\<close>, linear interpolation between the two order statistics
  around position \<open>(n - 1) * q\<close>.
\<close>

definition quantile :: "real \<Rightarrow> real list \<Rightarrow> fl" where
  "quantile q xs =
     (let s = sort xs; n = length s
      in if n = 0 then NaN
         else let h = real (n - 1) * q;
                  lo = nat \<lfloor>h\<rfloor>;
                  hi = min (lo + 1) (n - 1)
              in Fin (s ! lo + (h - real lo) * (s ! hi - s ! lo)))"

text \<open>
  \<open>scipy.stats.zscore(a)\<close> on an array without NaN: \<open>(a - a.mean()) / a.std()\<close> with
  \<open>ddof = 0\<close>, elementwise. A constant array has standard deviation 0 and every score is
  \<open>0 / 0 = NaN\<close>; an empty array gives an empty result.
\<close>

definition zscore :: "real list \<Rightarrow> fl list" where
  "zscore a = map (\<lambda>x. fdiv (fsub (Fin x) (mean a)) (std 0 a)) a"

section \<open>Data frames\<close>

text \<open>
  A parsed timestamp, as far as the program reads it: the \<open>.dt.hour\<close>, \<open>.dt.month\<close> and
  \<open>.dt.dayofweek\<close> accessors.
\<close>

record datetime =
  dt_hour :: int
  dt_month :: int
  dt_dayofweek :: int

text \<open>
  A column by dtype: float64 (with missing cells), int64, object (the strings of an
  unparsed timestamp column) and datetime64. Timestamps are taken to be present in
  every row.
\<close>

datatype column =
    Floats "real option list"
  | Ints "int list"
  | Strs "string list"
  | Times "datetime list"

fun col_len :: "column \<Rightarrow> nat" where
  "col_len (Floats xs) = length xs"
| "col_len (Ints xs) = length xs"
| "col_len (Strs xs) = length xs"
| "col_len (Times xs) = length xs"

text \<open>
  A DataFrame: the length of its index and its named columns. \<open>wf_df\<close> is what every
  DataFrame satisfies: column names are distinct and every column has one cell per row.
\<close>

record dataframe =
  nrows :: nat
  cols :: "(string \<times> column) list"

definition wf_df :: "dataframe \<Rightarrow> bool" where
  "wf_df df = (distinct (map fst (cols df)) \<and> list_all (\<lambda>(n, c). col_len c = nrows df) (cols df))"

text \<open>\<open>df[col]\<close>, guarded by \<open>col in df.columns\<close>: None when the column is absent.\<close>

definition column_of :: "dataframe \<Rightarrow> string \<Rightarrow> column option" where
  "column_of df col = map_of (cols df) col"

text \<open>A Python dict keeps insertion order; storing under an existing key keeps its place.\<close>

fun dict_set :: "('k \<times> 'v) list \<Rightarrow> 'k \<Rightarrow> 'v \<Rightarrow> ('k \<times> 'v) list" where
  "dict_set [] k v = [(k, v)]"
| "dict_set ((k', v') # d) k v = (if k' = k then (k, v) # d else (k', v') # dict_set d k v)"

text \<open>\<open>df[col] = series\<close> for a series on the frame's own index.\<close>

definition set_column :: "dataframe \<Rightarrow> string \<Rightarrow> column \<Rightarrow> dataframe" where
  "set_column df col c = df\<lparr>cols := dict_set (cols df) col c\<rparr>"

text \<open>
  The numeric view of a column that the statistics work on: None for a column that is
  not float64 or int64.
\<close>

fun numeric :: "column \<Rightarrow> real option list option" where
  "numeric (Floats xs) = Some xs"
| "numeric (Ints xs) = Some (map (\<lambda>i. Some (real_of_int i)) xs)"
| "numeric (Strs xs) = None"
| "numeric (Times xs) = None"

section \<open>The cleaner (\<open>SolarDataProcessor\<close>)\<close>

text \<open>The exceptions that the modelled calls can raise.\<close>

datatype error = ValueError | TypeError | AttributeError

text \<open>\<open>self.cleaning_report\<close>: a dict with up to three entries, empty at construction.\<close>

record cleaning_report =
  missing_values :: "(string \<times> nat) list option"
  outliers_detected :: "(string \<times> nat) list option"
  outliers_removed :: "int option"

definition init_report :: cleaning_report where
  "init_report = \<lparr>missing_values = None, outliers_detected = None, outliers_removed = None\<rparr>"

subsection \<open>\<open>handle_missing_values\<close>\<close>

definition default_columns_to_impute :: "string list" where
  "default_columns_to_impute = [''GHI'', ''DNI'', ''DHI'', ''Tamb'', ''WS'', ''RH'', ''BP'']"

text \<open>\<open>df[col].isna().sum()\<close>.\<close>

fun isna_sum :: "column \<Rightarrow> nat" where
  "isna_sum (Floats xs) = length (filter (\<lambda>x. x = None) xs)"
| "isna_sum c = 0"

text \<open>\<open>df[col].median()\<close>: NaN (None) when the column has no reading.\<close>

definition col_median :: "column \<Rightarrow> real option" where
  "col_median c = (case numeric c of None \<Rightarrow> None | Some xs \<Rightarrow> median (dropna xs))"

text \<open>\<open>series.fillna(value)\<close>. Filling with NaN changes nothing.\<close>

fun fillna :: "column \<Rightarrow> real option \<Rightarrow> column" where
  "fillna (Floats xs) (Some m) = Floats (map (\<lambda>x. case x of None \<Rightarrow> Some m | Some v \<Rightarrow> Some v) xs)"
| "fillna c v = c"

text \<open>
  \<open>df[col].fillna(value, inplace=True)\<close> fills the Series object that \<open>df[col]\<close>
  returns; the source assigns nothing back to the frame. Whether the frame is filled
  with it is the library's doing and differs between its versions, none of which the
  repository pins: up to pandas 2 the Series shares the frame's column and the frame
  is filled, from pandas 3 on (copy-on-write) the Series is the frame's no longer and
  the frame stays as it was. \<open>copy_on_write\<close> says which library runs the code.
\<close>

definition fillna_inplace :: "bool \<Rightarrow> dataframe \<Rightarrow> string \<Rightarrow> column \<Rightarrow> real option \<Rightarrow> dataframe" where
  "fillna_inplace copy_on_write df col c v =
     (if copy_on_write then df else set_column df col (fillna c v))"

text \<open>The loop over \<open>columns_to_impute\<close>, carrying the frame and \<open>missing_report\<close>.\<close>

fun impute_loop ::
  "bool \<Rightarrow> string list \<Rightarrow> dataframe \<Rightarrow> (string \<times> nat) list
     \<Rightarrow> dataframe \<times> (string \<times> nat) list" where
  "impute_loop copy_on_write [] df missing_report = (df, missing_report)"
| "impute_loop copy_on_write (col # rest) df missing_report =
     (case column_of df col of
        None \<Rightarrow> impute_loop copy_on_write rest df missing_report
      | Some c \<Rightarrow>
          let missing_count = isna_sum c
          in if missing_count > 0
             then impute_loop copy_on_write rest
                    (fillna_inplace copy_on_write df col c (col_median c))
                    (dict_set missing_report col missing_count)
             else impute_loop copy_on_write rest df missing_report)"

definition handle_missing_values ::
  "bool \<Rightarrow> cleaning_report \<Rightarrow> dataframe \<Rightarrow> string list option
     \<Rightarrow> dataframe \<times> cleaning_report" where
  "handle_missing_values copy_on_write report df columns_to_impute =
     (let columns = (case columns_to_impute of None \<Rightarrow> default_columns_to_impute | Some cs \<Rightarrow> cs);
          (df', missing_report) = impute_loop copy_on_write columns df []
      in (df', report\<lparr>missing_values := Some missing_report\<rparr>))"

subsection \<open>\<open>detect_outliers\<close>\<close>

definition default_outlier_columns :: "string list" where
  "default_outlier_columns =
     [''GHI'', ''DNI'', ''DHI'', ''ModA'', ''ModB'', ''WS'', ''WSgust'', ''Tamb'']"

text \<open>
  \<open>np.abs(stats.zscore(df[col].dropna())) > z_threshold\<close>: a plain boolean array with
  one entry per reading of the column, in order, carrying no row labels.
\<close>

definition outlier_mask :: "real option list \<Rightarrow> fl \<Rightarrow> bool list" where
  "outlier_mask xs z_threshold = map (\<lambda>z. fgt (fabs z) z_threshold) (zscore (dropna xs))"

text \<open>The loop over \<open>columns\<close>; the dtype test admits float64 and int64 columns.\<close>

fun detect_loop ::
  "string list \<Rightarrow> dataframe \<Rightarrow> fl \<Rightarrow> (string \<times> nat) list \<Rightarrow> (string \<times> nat) list" where
  "detect_loop [] df z_threshold outliers_report = outliers_report"
| "detect_loop (col # rest) df z_threshold outliers_report =
     (case column_of df col of
        None \<Rightarrow> detect_loop rest df z_threshold outliers_report
      | Some c \<Rightarrow>
          (case numeric c of
             None \<Rightarrow> detect_loop rest df z_threshold outliers_report
           | Some xs \<Rightarrow>
               let outlier_count = length (filter (\<lambda>b. b) (outlier_mask xs z_threshold))
               in detect_loop rest df z_threshold (dict_set outliers_report col outlier_count)))"

definition detect_outliers :: "dataframe \<Rightarrow> string list option \<Rightarrow> fl \<Rightarrow> (string \<times> nat) list" where
  "detect_outliers df columns z_threshold =
     detect_loop (case columns of None \<Rightarrow> default_outlier_columns | Some cs \<Rightarrow> cs)
       df z_threshold []"

subsection \<open>\<open>remove_outliers\<close>\<close>

text \<open>The cells of a column at the positions where the boolean array is True.\<close>

definition pick :: "bool list \<Rightarrow> 'a list \<Rightarrow> 'a list" where
  "pick keep xs = map fst (filter snd (zip xs keep))"

fun pick_column :: "bool list \<Rightarrow> column \<Rightarrow> column" where
  "pick_column keep (Floats xs) = Floats (pick keep xs)"
| "pick_column keep (Ints xs) = Ints (pick keep xs)"
| "pick_column keep (Strs xs) = Strs (pick keep xs)"
| "pick_column keep (Times xs) = Times (pick keep xs)"

text \<open>
  \<open>df[keep]\<close> for a boolean numpy array: positional, and pandas raises
  \<open>ValueError: Item wrong length\<close> unless the array has one entry per row.
\<close>

definition boolean_index :: "dataframe \<Rightarrow> bool list \<Rightarrow> error + dataframe" where
  "boolean_index df keep =
     (if length keep \<noteq> nrows df then Inl ValueError
      else Inr \<lparr>nrows = length (filter (\<lambda>b. b) keep),
               cols = map (\<lambda>(n, c). (n, pick_column keep c)) (cols df)\<rparr>)"

text \<open>
  The loop over \<open>columns\<close>, rebinding \<open>df\<close>. There is no dtype test here: the z-score of
  a column that is not numeric raises.
\<close>

fun remove_loop :: "string list \<Rightarrow> dataframe \<Rightarrow> fl \<Rightarrow> error + dataframe" where
  "remove_loop [] df z_threshold = Inr df"
| "remove_loop (col # rest) df z_threshold =
     (case column_of df col of
        None \<Rightarrow> remove_loop rest df z_threshold
      | Some c \<Rightarrow>
          (case numeric c of
             None \<Rightarrow> Inl TypeError
           | Some xs \<Rightarrow>
               let mask = outlier_mask xs z_threshold
               in if True \<in> set mask
                  then (case boolean_index df (map Not mask) of
                          Inl e \<Rightarrow> Inl e
                        | Inr df' \<Rightarrow> remove_loop rest df' z_threshold)
                  else remove_loop rest df z_threshold))"

definition remove_outliers ::
  "cleaning_report \<Rightarrow> dataframe \<Rightarrow> string list option \<Rightarrow> fl
     \<Rightarrow> error + dataframe \<times> cleaning_report" where
  "remove_outliers report df columns z_threshold =
     (let initial_shape = nrows df
      in case remove_loop (case columns of None \<Rightarrow> default_outlier_columns | Some cs \<Rightarrow> cs)
                df z_threshold of
           Inl e \<Rightarrow> Inl e
         | Inr df' \<Rightarrow>
             let removed_count = int initial_shape - int (nrows df')
             in Inr (df', report\<lparr>outliers_removed := Some removed_count\<rparr>))"

subsection \<open>\<open>process_timestamp\<close>\<close>

text \<open>
  \<open>pd.to_datetime\<close> is the library's parser and a parameter here: given a column it
  returns the parsed timestamps, one per cell, or raises. \<open>df[col].dt\<close> exists on a
  datetime64 column only. The column is read again for each derived feature, as in the
  source.
\<close>

definition dt_of :: "dataframe \<Rightarrow> string \<Rightarrow> error + datetime list" where
  "dt_of df col = (case column_of df col of Some (Times ts) \<Rightarrow> Inr ts | _ \<Rightarrow> Inl AttributeError)"

definition derive ::
  "dataframe \<Rightarrow> string \<Rightarrow> string \<Rightarrow> (datetime \<Rightarrow> int) \<Rightarrow> error + dataframe" where
  "derive df timestamp_col name f =
     (case dt_of df timestamp_col of
        Inl e \<Rightarrow> Inl e
      | Inr ts \<Rightarrow> Inr (set_column df name (Ints (map f ts))))"

definition process_timestamp ::
  "(column \<Rightarrow> error + datetime list) \<Rightarrow> dataframe \<Rightarrow> string \<Rightarrow> error + dataframe" where
  "process_timestamp to_datetime df timestamp_col =
     (case column_of df timestamp_col of
        None \<Rightarrow> Inr df
      | Some c \<Rightarrow>
          (case to_datetime c of
             Inl e \<Rightarrow> Inl e
           | Inr ts \<Rightarrow>
               (case derive (set_column df timestamp_col (Times ts)) timestamp_col ''Hour'' dt_hour of
                  Inl e \<Rightarrow> Inl e
                | Inr df1 \<Rightarrow>
                    (case derive df1 timestamp_col ''Month'' dt_month of
                       Inl e \<Rightarrow> Inl e
                     | Inr df2 \<Rightarrow>
                         (case derive df2 timestamp_col ''DayOfWeek'' dt_dayofweek of
                            Inl e \<Rightarrow> Inl e
                          | Inr df3 \<Rightarrow>
                              derive df3 timestamp_col ''Season''
                                (\<lambda>t. (dt_month t mod 12 + 3) div 3))))))"

section \<open>The analyzer (\<open>SolarAnalyzer\<close>)\<close>

subsection \<open>\<open>calculate_solar_potential_metrics\<close>\<close>

record metrics =
  average_ghi :: fl
  std_ghi :: fl
  cv_ghi :: fl
  peak_ghi :: fl
  peak_95th :: fl
  consistency_score :: fl
  operational_hours :: nat
  high_potential_hours :: nat

text \<open>
  The result is the metrics dict, or the empty dict \<open>{}\<close> (None) when there is no GHI
  column. Statistics of a GHI column that is not numeric raise.
\<close>

definition calculate_solar_potential_metrics :: "dataframe \<Rightarrow> error + metrics option" where
  "calculate_solar_potential_metrics df =
     (case column_of df ''GHI'' of
        None \<Rightarrow> Inr None
      | Some c \<Rightarrow>
          (case numeric c of
             None \<Rightarrow> Inl TypeError
           | Some xs \<Rightarrow>
               let ghi_data = dropna xs
               in Inr (Some
                    \<lparr>average_ghi = mean ghi_data,
                     std_ghi = std 1 ghi_data,
                     cv_ghi = fmul (fdiv (std 1 ghi_data) (mean ghi_data)) (Fin 100),
                     peak_ghi = maximum ghi_data,
                     peak_95th = quantile (95 / 100) ghi_data,
                     consistency_score =
                       fsub (Fin 100) (fmul (fdiv (std 1 ghi_data) (mean ghi_data)) (Fin 100)),
                     operational_hours = length (filter (\<lambda>x. x > 50) ghi_data),
                     high_potential_hours = length (filter (\<lambda>x. x > 400) ghi_data)\<rparr>)))"

subsection \<open>\<open>rank_countries\<close>\<close>

record ranking =
  composite_score :: fl
  ranking_average_ghi :: fl
  consistency :: fl
  ranking_high_potential_hours :: nat
  ranking_metrics :: metrics

text \<open>The weighted sum, in the order the source writes it.\<close>

definition composite :: "metrics \<Rightarrow> fl" where
  "composite m =
     fadd (fadd (fadd (fmul (average_ghi m) (Fin (4 / 10)))
                      (fmul (fsub (Fin 100) (cv_ghi m)) (Fin (3 / 10))))
                (fmul (Fin (real (high_potential_hours m))) (Fin (2 / 10))))
          (fmul (peak_95th m) (Fin (1 / 10)))"

text \<open>
  The loop over \<open>country_data_dict.items()\<close>, filling \<open>rankings\<close>; \<open>if metrics:\<close> is False
  exactly for the empty dict.
\<close>

fun rank_loop ::
  "(string \<times> dataframe) list \<Rightarrow> (string \<times> ranking) list \<Rightarrow> error + (string \<times> ranking) list" where
  "rank_loop [] rankings = Inr rankings"
| "rank_loop ((country, df) # rest) rankings =
     (case calculate_solar_potential_metrics df of
        Inl e \<Rightarrow> Inl e
      | Inr None \<Rightarrow> rank_loop rest rankings
      | Inr (Some m) \<Rightarrow>
          rank_loop rest
            (dict_set rankings country
               \<lparr>composite_score = composite m,
                ranking_average_ghi = average_ghi m,
                consistency = fsub (Fin 100) (cv_ghi m),
                ranking_high_potential_hours = high_potential_hours m,
                ranking_metrics = m\<rparr>))"

text \<open>
  \<open>sorted(items, key=..., reverse=True)\<close>. Python reverses the list, sorts it ascending
  and stably with \<open><\<close> as its only comparison, and reverses the result. The ascending
  sort is an insertion sort here: each item goes in front of the first item it is
  smaller than. On keys that \<open><\<close> orders totally every stable sort returns this list.
  A NaN key is not ordered by \<open><\<close>: then Python's result depends on which pairs its
  merge sort happens to compare, and this list is Python's for one or two items only.
\<close>

fun insort_lt :: "('a \<Rightarrow> fl) \<Rightarrow> 'a \<Rightarrow> 'a list \<Rightarrow> 'a list" where
  "insort_lt key x [] = [x]"
| "insort_lt key x (y # ys) =
     (if flt (key x) (key y) then x # y # ys else y # insort_lt key x ys)"

definition sort_lt :: "('a \<Rightarrow> fl) \<Rightarrow> 'a list \<Rightarrow> 'a list" where
  "sort_lt key xs = foldl (\<lambda>acc x. insort_lt key x acc) [] xs"

definition sorted_reverse :: "('a \<Rightarrow> fl) \<Rightarrow> 'a list \<Rightarrow> 'a list" where
  "sorted_reverse key xs = rev (sort_lt key (rev xs))"

text \<open>\<open>dict(items)\<close>.\<close>

definition dict_of :: "('k \<times> 'v) list \<Rightarrow> ('k \<times> 'v) list" where
  "dict_of items = foldl (\<lambda>d (k, v). dict_set d k v) [] items"

definition rank_countries :: "(string \<times> dataframe) list \<Rightarrow> error + (string \<times> ranking) list" where
  "rank_countries country_data_dict =
     (case rank_loop country_data_dict [] of
        Inl e \<Rightarrow> Inl e
      | Inr rankings \<Rightarrow>
          Inr (dict_of (sorted_reverse (\<lambda>x. composite_score (snd x)) rankings)))"

subsection \<open>\<open>compare_countries_statistical\<close>\<close>

text \<open>\<open>df[metric].dropna()\<close>, the sample handed to the tests.\<close>

fun column_dropna :: "column \<Rightarrow> column" where
  "column_dropna (Floats xs) = Floats (map Some (dropna xs))"
| "column_dropna c = c"

record test_result =
  statistic :: fl
  pvalue :: fl

record test_summary =
  stat :: fl
  p_value :: fl
  significant :: bool

record comparison =
  countries :: "string list"
  sample_sizes :: "(string \<times> nat) list"
  anova :: test_summary
  kruskal_wallis :: test_summary

fun sample_loop ::
  "(string \<times> dataframe) list \<Rightarrow> string \<Rightarrow> (string \<times> column) list \<Rightarrow> (string \<times> column) list" where
  "sample_loop [] metric country_samples = country_samples"
| "sample_loop ((country, df) # rest) metric country_samples =
     (case column_of df metric of
        None \<Rightarrow> sample_loop rest metric country_samples
      | Some c \<Rightarrow> sample_loop rest metric (dict_set country_samples country (column_dropna c)))"

definition summary :: "test_result \<Rightarrow> test_summary" where
  "summary r = \<lparr>stat = statistic r, p_value = pvalue r, significant = flt (pvalue r) (Fin (5 / 100))\<rparr>"

text \<open>
  \<open>scipy.stats.f_oneway\<close> and \<open>kruskal\<close> are the library's tests and parameters here:
  each takes the samples and returns a statistic and a p-value, or raises. The result is
  the results dict, or the empty dict \<open>{}\<close> (None).
\<close>

definition compare_countries_statistical ::
  "(column list \<Rightarrow> error + test_result) \<Rightarrow> (column list \<Rightarrow> error + test_result)
     \<Rightarrow> (string \<times> dataframe) list \<Rightarrow> string \<Rightarrow> error + comparison option" where
  "compare_countries_statistical f_oneway kruskal country_data_dict metric =
     (let country_samples = sample_loop country_data_dict metric []
      in if length country_samples < 2 then Inr None
         else (case f_oneway (map snd country_samples) of
                 Inl e \<Rightarrow> Inl e
               | Inr anova_result \<Rightarrow>
                   (case kruskal (map snd country_samples) of
                      Inl e \<Rightarrow> Inl e
                    | Inr kruskal_result \<Rightarrow>
                        Inr (Some
                          \<lparr>countries = map fst country_samples,
                           sample_sizes = map (\<lambda>(country, sample). (country, col_len sample)) country_samples,
                           anova = summary anova_result,
                           kruskal_wallis = summary kruskal_result\<rparr>))))"

section \<open>Specification-level notions\<close>

subsection \<open>Imputation\<close>

text \<open>
  What one pass of the imputation loop body does to the column it visits, when the
  library fills the frame.
\<close>

definition impute_step :: "column \<Rightarrow> column" where
  "impute_step c = (if isna_sum c > 0 then fillna c (col_median c) else c)"

text \<open>
  The specification's imputation: every missing entry becomes the median of the
  column's non-missing values. Only a float64 column has missing entries.
\<close>

definition spec_impute :: "column \<Rightarrow> column" where
  "spec_impute col =
     (case col of
        Floats xs \<Rightarrow> Floats (map (\<lambda>x. case x of None \<Rightarrow> median (dropna xs) | Some v \<Rightarrow> Some v) xs)
      | _ \<Rightarrow> col)"

text \<open>A column with at least one row and no reading at all.\<close>

fun entirely_missing :: "column \<Rightarrow> bool" where
  "entirely_missing (Floats xs) = (xs \<noteq> [] \<and> dropna xs = [])"
| "entirely_missing c = False"

subsection \<open>Outliers\<close>

text \<open>
  The mean and the population variance of a non-empty array. \<open>flag t a x\<close> is the
  outlier test \<open>|x - mean| / std > t\<close> for a threshold \<open>t \<ge> 0\<close> with both sides squared,
  which needs no square root.
\<close>

definition avg :: "real list \<Rightarrow> real" where
  "avg a = sum_list a / real (length a)"

definition pvar :: "real list \<Rightarrow> real" where
  "pvar a = sum_list (map (\<lambda>x. (x - avg a)\<^sup>2) a) / real (length a)"

definition flag :: "real \<Rightarrow> real list \<Rightarrow> real \<Rightarrow> bool" where
  "flag t a x = (t\<^sup>2 * pvar a < (x - avg a)\<^sup>2)"

text \<open>
  The outlier test of one cell against the readings \<open>a\<close> of its column; a missing cell
  has no z-score and is not an outlier.
\<close>

definition cell_outlier :: "real list \<Rightarrow> fl \<Rightarrow> real option \<Rightarrow> bool" where
  "cell_outlier a z cell =
     (case cell of
        None \<Rightarrow> False
      | Some x \<Rightarrow> fgt (fabs (fdiv (fsub (Fin x) (mean a)) (std 0 a))) z)"

text \<open>
  The specification's narrowing by one column: with the z-scores of the column's
  non-missing values in the current table, keep the rows whose cell is not an outlier.
  An absent column leaves the table as it is.
\<close>

definition narrow :: "fl \<Rightarrow> dataframe \<Rightarrow> string \<Rightarrow> dataframe" where
  "narrow z df col =
     (case column_of df col of
        None \<Rightarrow> df
      | Some c \<Rightarrow>
          (case numeric c of
             None \<Rightarrow> df
           | Some xs \<Rightarrow>
               let keep = map (\<lambda>cell. \<not> cell_outlier (dropna xs) z cell) xs
               in \<lparr>nrows = length (filter (\<lambda>b. b) keep),
                   cols = map (\<lambda>(n, c). (n, pick_column keep c)) (cols df)\<rparr>))"

text \<open>Every checked column that is present is numeric and has no missing cell.\<close>

definition checked_complete :: "dataframe \<Rightarrow> string list \<Rightarrow> bool" where
  "checked_complete df cs =
     list_all (\<lambda>c. case column_of df c of
                     None \<Rightarrow> True
                   | Some col \<Rightarrow> (case numeric col of None \<Rightarrow> False | Some xs \<Rightarrow> None \<notin> set xs)) cs"

text \<open>
  A single combined pass, for comparison: the outlier flags of every checked column are
  computed on the table as given, and a row is dropped when any column flags it.
\<close>

definition flagged_rows :: "fl \<Rightarrow> dataframe \<Rightarrow> string \<Rightarrow> bool list" where
  "flagged_rows z df col =
     (case column_of df col of
        None \<Rightarrow> replicate (nrows df) False
      | Some c \<Rightarrow>
          (case numeric c of
             None \<Rightarrow> replicate (nrows df) False
           | Some xs \<Rightarrow> map (cell_outlier (dropna xs) z) xs))"

definition single_pass :: "fl \<Rightarrow> dataframe \<Rightarrow> string list \<Rightarrow> dataframe" where
  "single_pass z df cs =
     (let keep = map (\<lambda>i. \<not> list_ex (\<lambda>c. flagged_rows z df c ! i) cs) [0..<nrows df]
      in \<lparr>nrows = length (filter (\<lambda>b. b) keep),
          cols = map (\<lambda>(n, c). (n, pick_column keep c)) (cols df)\<rparr>)"

subsection \<open>Ranking and comparison\<close>

text \<open>The composite score as the specification writes it.\<close>

definition spec_score :: "metrics \<Rightarrow> fl" where
  "spec_score m =
     fadd (fadd (fadd (fmul (Fin (4 / 10)) (average_ghi m))
                      (fmul (Fin (3 / 10)) (fsub (Fin 100) (cv_ghi m))))
                (fmul (Fin (2 / 10)) (Fin (real (high_potential_hours m)))))
          (fmul (Fin (1 / 10)) (peak_95th m))"

text \<open>The entry \<open>rank_countries\<close> stores for a country with metrics \<open>m\<close>.\<close>

definition ranking_of :: "metrics \<Rightarrow> ranking" where
  "ranking_of m =
     \<lparr>composite_score = composite m,
      ranking_average_ghi = average_ghi m,
      consistency = fsub (Fin 100) (cv_ghi m),
      ranking_high_potential_hours = high_potential_hours m,
      ranking_metrics = m\<rparr>"

text \<open>The countries that get an entry, in the order of the input mapping.\<close>

fun ranked :: "(string \<times> dataframe) list \<Rightarrow> (string \<times> ranking) list" where
  "ranked [] = []"
| "ranked ((country, df) # rest) =
     (case calculate_solar_potential_metrics df of
        Inr (Some m) \<Rightarrow> (country, ranking_of m) # ranked rest
      | _ \<Rightarrow> ranked rest)"

text \<open>The GHI column is absent or numeric, so that its statistics do not raise.\<close>

definition ghi_numeric :: "dataframe \<Rightarrow> bool" where
  "ghi_numeric df = (case column_of df ''GHI'' of None \<Rightarrow> True | Some c \<Rightarrow> numeric c \<noteq> None)"

text \<open>The countries of a ranking with their composite scores, in order.\<close>

definition ranking_scores :: "error + (string \<times> ranking) list \<Rightarrow> (string \<times> fl) list" where
  "ranking_scores result =
     (case result of Inl e \<Rightarrow> [] | Inr r \<Rightarrow> map (\<lambda>(country, e). (country, composite_score e)) r)"

text \<open>The countries whose table has the metric column, in the order of the input.\<close>

definition with_metric :: "string \<Rightarrow> (string \<times> dataframe) list \<Rightarrow> (string \<times> dataframe) list" where
  "with_metric metric d = filter (\<lambda>(country, df). column_of df metric \<noteq> None) d"

section \<open>Sample inputs\<close>

text \<open>A frame with one gap in GHI and a DNI column that is entirely missing.\<close>

definition sample_df :: dataframe where
  "sample_df =
     \<lparr>nrows = 3,
      cols = [(''GHI'', Floats [Some 1, None, Some 3]), (''DNI'', Floats [None, None, None])]\<rparr>"

text \<open>A frame whose GHI column is constant.\<close>

definition flat_df :: dataframe where
  "flat_df = \<lparr>nrows = 3, cols = [(''GHI'', Floats [Some 5, Some 5, Some 5])]\<rparr>"

text \<open>
  Twelve hourly rows. GHI has one spike; DNI has two equal high readings that hide each
  other from the z-score test until one of them is gone.
\<close>

definition order_df :: dataframe where
  "order_df =
     \<lparr>nrows = 12,
      cols =
        [(''Timestamp'', Strs [''00'', ''01'', ''02'', ''03'', ''04'', ''05'',
                               ''06'', ''07'', ''08'', ''09'', ''10'', ''11'']),
         (''GHI'', Floats [Some 100, Some 0, Some 0, Some 0, Some 0, Some 0,
                          Some 0, Some 0, Some 0, Some 0, Some 0, Some 0]),
         (''DNI'', Floats [Some 10, Some 10, Some 0, Some 0, Some 0, Some 0,
                          Some 0, Some 0, Some 0, Some 0, Some 0, Some 0])]\<rparr>"

text \<open>
  Thirteen rows with a gap in the first row of GHI and of ModA, and one spike in each
  column among the readings.
\<close>

definition gap_df :: dataframe where
  "gap_df =
     \<lparr>nrows = 13,
      cols =
        [(''GHI'', Floats [None, Some 100, Some 0, Some 0, Some 0, Some 0, Some 0,
                          Some 0, Some 0, Some 0, Some 0, Some 0, Some 0]),
         (''ModA'', Floats [None, Some 0, Some 100, Some 0, Some 0, Some 0, Some 0,
                           Some 0, Some 0, Some 0, Some 0, Some 0, Some 0])]\<rparr>"

text \<open>A stand-in for the library parser: every string is read as an hour of 2023-01-01.\<close>

definition sample_to_datetime :: "column \<Rightarrow> error + datetime list" where
  "sample_to_datetime c =
     (case c of
        Times ts \<Rightarrow> Inr ts
      | Strs ss \<Rightarrow> Inr (map (\<lambda>s. \<lparr>dt_hour = 0, dt_month = 1, dt_dayofweek = 6\<rparr>) ss)
      | _ \<Rightarrow> Inl TypeError)"

text \<open>Frames with GHI readings 1, 3, 5 and 2, 6, 10, and their metrics.\<close>

definition low_df :: dataframe where
  "low_df = \<lparr>nrows = 3, cols = [(''GHI'', Floats [Some 1, Some 3, Some 5])]\<rparr>"

definition high_df :: dataframe where
  "high_df = \<lparr>nrows = 3, cols = [(''GHI'', Floats [Some 2, Some 6, Some 10])]\<rparr>"

definition low_m :: metrics where
  "low_m = \<lparr>average_ghi = Fin 3, std_ghi = Fin 2, cv_ghi = Fin (200 / 3), peak_ghi = Fin 5,
            peak_95th = Fin (24 / 5), consistency_score = Fin (100 / 3),
            operational_hours = 0, high_potential_hours = 0\<rparr>"

definition high_m :: metrics where
  "high_m = \<lparr>average_ghi = Fin 6, std_ghi = Fin 4, cv_ghi = Fin (200 / 3), peak_ghi = Fin 10,
             peak_95th = Fin (48 / 5), consistency_score = Fin (100 / 3),
             operational_hours = 0, high_potential_hours = 0\<rparr>"

text \<open>A frame without a GHI column.\<close>

definition bare_df :: dataframe where
  "bare_df = \<lparr>nrows = 3, cols = [(''DNI'', Floats [Some 1, Some 3, Some 5])]\<rparr>"

text \<open>A frame with a single GHI reading: its sample standard deviation is NaN.\<close>

definition lone_df :: dataframe where
  "lone_df = \<lparr>nrows = 1, cols = [(''GHI'', Floats [Some 7])]\<rparr>"

text \<open>A frame whose GHI column is present and entirely missing.\<close>

definition void_df :: dataframe where
  "void_df = \<lparr>nrows = 2, cols = [(''GHI'', Floats [None, None])]\<rparr>"

text \<open>Input mappings for the ranking and the comparison.\<close>

definition rank_input :: "(string \<times> dataframe) list" where
  "rank_input = [(''Benin'', low_df), (''Togo'', bare_df), (''Sierra_Leone'', high_df)]"

definition tie_input :: "(string \<times> dataframe) list" where
  "tie_input = [(''Benin'', low_df), (''Togo'', low_df), (''Sierra_Leone'', high_df)]"

definition nan_input :: "(string \<times> dataframe) list" where
  "nan_input = [(''Benin'', lone_df), (''Togo'', low_df)]"

definition compare_input :: "(string \<times> dataframe) list" where
  "compare_input = [(''Benin'', void_df), (''Togo'', low_df)]"

text \<open>The answer of the library's tests on a degenerate input such as an empty sample.\<close>

definition degenerate_test :: "column list \<Rightarrow> error + test_result" where
  "degenerate_test samples = Inr \<lparr>statistic = NaN, pvalue = NaN\<rparr>"

section \<open>Properties of the cleaner\<close>

subsection \<open>Imputation\<close>

lemma isna_sum_fillna: "isna_sum (fillna c (Some m)) = 0"
  by (cases c) (auto simp: filter_empty_conv split: option.splits)

lemma isna_sum_step: "isna_sum (impute_step c) = 0 \<or> impute_step c = c"
  by (cases "col_median c") (auto simp: impute_step_def isna_sum_fillna)

lemma impute_step_idem: "impute_step (impute_step c) = impute_step c"
proof (cases "isna_sum (impute_step c) = 0")
  case True
  then show ?thesis by (simp add: impute_step_def[of "impute_step c"])
next
  case False
  with isna_sum_step[of c] have "impute_step c = c" by simp
  then show ?thesis by simp
qed

lemma map_of_dict_set: "map_of (dict_set d k v) k' = (if k' = k then Some v else map_of d k')"
  by (induction d k v rule: dict_set.induct) auto

lemma column_of_set_column:
  "column_of (set_column df k c) k' = (if k' = k then Some c else column_of df k')"
  by (simp add: column_of_def set_column_def map_of_dict_set)

lemma impute_loop_Cons:
  "impute_loop False (a # cs) df rep =
     (case column_of df a of
        None \<Rightarrow> impute_loop False cs df rep
      | Some col \<Rightarrow>
          if isna_sum col > 0
          then impute_loop False cs (set_column df a (impute_step col)) (dict_set rep a (isna_sum col))
          else impute_loop False cs df rep)"
  by (simp add: Let_def impute_step_def fillna_inplace_def split: option.splits)

lemma impute_loop_column:
  "impute_loop False cs df rep = (df', rep') \<Longrightarrow>
   column_of df' c = (if c \<in> set cs then map_option impute_step (column_of df c) else column_of df c)"
proof (induction cs arbitrary: df rep)
  case Nil
  then show ?case by simp
next
  case (Cons a cs)
  show ?case
  proof (cases "column_of df a")
    case None
    with Cons show ?thesis by (auto simp: impute_loop_Cons simp del: impute_loop.simps)
  next
    case (Some col)
    show ?thesis
    proof (cases "isna_sum col > 0")
      case False
      then have "impute_step col = col" by (simp add: impute_step_def)
      with False Some Cons show ?thesis
        by (auto simp: impute_loop_Cons simp del: impute_loop.simps)
    next
      case True
      with Some Cons.prems have
        "impute_loop False cs (set_column df a (impute_step col)) (dict_set rep a (isna_sum col)) = (df', rep')"
        by (simp add: impute_loop_Cons del: impute_loop.simps)
      from Cons.IH[OF this] Some True show ?thesis
        by (auto simp: column_of_set_column impute_step_idem)
    qed
  qed
qed

lemma impute_loop_report:
  "impute_loop False cs df rep = (df', rep') \<Longrightarrow>
   map_of rep' c =
     (case column_of df c of
        None \<Rightarrow> map_of rep c
      | Some col \<Rightarrow> if c \<in> set cs \<and> isna_sum col > 0 then Some (isna_sum col) else map_of rep c)"
proof (induction cs arbitrary: df rep)
  case Nil
  then show ?case by (simp split: option.splits)
next
  case (Cons a cs)
  show ?case
  proof (cases "column_of df a")
    case None
    with Cons show ?thesis by (auto simp: impute_loop_Cons simp del: impute_loop.simps split: option.splits)
  next
    case (Some col)
    show ?thesis
    proof (cases "isna_sum col > 0")
      case False
      with Some Cons show ?thesis
        by (auto simp: impute_loop_Cons simp del: impute_loop.simps split: option.splits)
    next
      case True
      with Some Cons.prems have
        "impute_loop False cs (set_column df a (impute_step col)) (dict_set rep a (isna_sum col)) = (df', rep')"
        by (simp add: impute_loop_Cons del: impute_loop.simps)
      from Cons.IH[OF this] Some True isna_sum_step[of col] show ?thesis
        by (auto simp: column_of_set_column map_of_dict_set split: option.splits)
    qed
  qed
qed

lemma impute_loop_nrows: "impute_loop False cs df rep = (df', rep') \<Longrightarrow> nrows df' = nrows df"
proof (induction cs arbitrary: df rep)
  case Nil
  then show ?case by simp
next
  case (Cons a cs)
  then show ?case
    by (auto simp: impute_loop_Cons set_column_def simp del: impute_loop.simps split: option.splits if_splits)
qed

text \<open>Under copy-on-write the loop only counts: the frame is the one it was given.\<close>

lemma impute_loop_cow_Cons:
  "impute_loop True (a # cs) df rep =
     (case column_of df a of
        None \<Rightarrow> impute_loop True cs df rep
      | Some col \<Rightarrow>
          if isna_sum col > 0
          then impute_loop True cs df (dict_set rep a (isna_sum col))
          else impute_loop True cs df rep)"
  by (simp add: Let_def fillna_inplace_def split: option.splits)

lemma impute_loop_cow_frame: "impute_loop True cs df rep = (df', rep') \<Longrightarrow> df' = df"
proof (induction cs arbitrary: rep)
  case Nil
  then show ?case by simp
next
  case (Cons a cs)
  then show ?case
    by (auto simp: impute_loop_cow_Cons simp del: impute_loop.simps split: option.splits if_splits)
qed

lemma impute_loop_cow_report:
  "impute_loop True cs df rep = (df', rep') \<Longrightarrow>
   map_of rep' c =
     (case column_of df c of
        None \<Rightarrow> map_of rep c
      | Some col \<Rightarrow> if c \<in> set cs \<and> isna_sum col > 0 then Some (isna_sum col) else map_of rep c)"
proof (induction cs arbitrary: rep)
  case Nil
  then show ?case by (simp split: option.splits)
next
  case (Cons a cs)
  show ?case
  proof (cases "column_of df a")
    case None
    with Cons show ?thesis
      by (auto simp: impute_loop_cow_Cons simp del: impute_loop.simps split: option.splits)
  next
    case (Some col)
    show ?thesis
    proof (cases "isna_sum col > 0")
      case False
      with Some Cons show ?thesis
        by (auto simp: impute_loop_cow_Cons simp del: impute_loop.simps split: option.splits)
    next
      case True
      with Some Cons.prems have
        "impute_loop True cs df (dict_set rep a (isna_sum col)) = (df', rep')"
        by (simp add: impute_loop_cow_Cons del: impute_loop.simps)
      from Cons.IH[OF this] Some True show ?thesis
        by (auto simp: map_of_dict_set split: option.splits)
    qed
  qed
qed

text \<open>Either way the report is the same.\<close>

lemma impute_loop_report_any:
  assumes "impute_loop copy_on_write cs df rep = (df', rep')"
  shows "map_of rep' c =
     (case column_of df c of
        None \<Rightarrow> map_of rep c
      | Some col \<Rightarrow> if c \<in> set cs \<and> isna_sum col > 0 then Some (isna_sum col) else map_of rep c)"
proof (cases copy_on_write)
  case True
  with assms have "impute_loop True cs df rep = (df', rep')" by simp
  then show ?thesis by (rule impute_loop_cow_report)
next
  case False
  with assms have "impute_loop False cs df rep = (df', rep')" by simp
  then show ?thesis by (rule impute_loop_report)
qed

lemma median_Some:
  assumes "xs \<noteq> []"
  shows "median xs \<noteq> None"
proof -
  have "length (sort xs) = length xs" by simp
  with assms have "sort xs \<noteq> []" by (metis length_0_conv)
  then show ?thesis by (simp add: median_def Let_def del: not_None_eq)
qed

lemma median_Nil: "median [] = None"
  by (simp add: median_def)

lemma filter_None: "filter (\<lambda>x. x = None) xs = [] \<longleftrightarrow> None \<notin> set xs"
  by (induction xs) auto

lemma map_fill_id: "None \<notin> set xs \<Longrightarrow> map (\<lambda>x. case x of None \<Rightarrow> d | Some v \<Rightarrow> Some v) xs = xs"
  by (induction xs) (auto split: option.splits)

lemma col_median_Some:
  assumes "\<not> entirely_missing col" and "isna_sum col > 0"
  shows "\<exists>m. col_median col = Some m"
proof (cases col)
  case (Floats xs)
  with assms(2) have "None \<in> set xs" using filter_None[of xs] by auto
  then have "xs \<noteq> []" by auto
  with assms(1) Floats have "dropna xs \<noteq> []" by simp
  then have "median (dropna xs) \<noteq> None" by (rule median_Some)
  with Floats show ?thesis by (auto simp: col_median_def)
qed (use assms in simp_all)

lemma impute_step_spec: "\<not> entirely_missing col \<Longrightarrow> impute_step col = spec_impute col"
proof (cases col)
  case (Floats xs)
  assume nm: "\<not> entirely_missing col"
  show ?thesis
  proof (cases "isna_sum col > 0")
    case False
    with Floats have "None \<notin> set xs" using filter_None[of xs] by simp
    with False Floats show ?thesis
      by (simp add: impute_step_def spec_impute_def map_fill_id)
  next
    case True
    from col_median_Some[OF nm True] obtain m where m: "col_median col = Some m" by blast
    with Floats have "median (dropna xs) = Some m" by (simp add: col_median_def)
    with True Floats m show ?thesis
      by (simp add: impute_step_def spec_impute_def)
  qed
qed (simp_all add: impute_step_def spec_impute_def)

lemma impute_step_missing: "entirely_missing col \<Longrightarrow> impute_step col = col"
  by (cases col) (auto simp: impute_step_def col_median_def median_Nil)

lemma isna_sum_spec_impute:
  assumes "\<not> entirely_missing col"
  shows "isna_sum (spec_impute col) = 0"
proof (cases "isna_sum col > 0")
  case False
  then show ?thesis using impute_step_spec[OF assms] by (simp add: impute_step_def)
next
  case True
  from col_median_Some[OF assms True] obtain m where "col_median col = Some m" by blast
  with True have "impute_step col = fillna col (Some m)" by (simp add: impute_step_def)
  then show ?thesis using impute_step_spec[OF assms] isna_sum_fillna[of col m] by simp
qed

lemma dropna_Nil_iff: "dropna xs = [] \<longleftrightarrow> (\<forall>x\<in>set xs. x = None)"
  by (induction xs rule: dropna.induct) simp_all

lemma isna_sum_entirely_missing: "entirely_missing col \<Longrightarrow> isna_sum col = col_len col \<and> 0 < col_len col"
proof (cases col)
  case (Floats xs)
  assume "entirely_missing col"
  with Floats have ne: "xs \<noteq> []" and "dropna xs = []" by simp_all
  then have "\<forall>x\<in>set xs. x = None" by (simp add: dropna_Nil_iff)
  then have "filter (\<lambda>x. x = None) xs = xs" by (simp add: filter_id_conv)
  with Floats ne show ?thesis by simp
qed simp_all

text \<open>
  With a library that fills the frame (pandas before copy-on-write) the loop imputes:
  a named column that is present and not entirely missing becomes the original with
  every missing entry replaced by the median of its non-missing values, and no missing
  entry is left.
\<close>

lemma impute_write_through_median:
  assumes "column_of df c = Some col"
    and "\<not> entirely_missing col"
    and "c \<in> set (case columns of None \<Rightarrow> default_columns_to_impute | Some cs \<Rightarrow> cs)"
    and "handle_missing_values False report df columns = (df', report')"
  shows "column_of df' c = Some (spec_impute col) \<and> isna_sum (spec_impute col) = 0"
proof -
  let ?cs = "case columns of None \<Rightarrow> default_columns_to_impute | Some cs \<Rightarrow> cs"
  obtain rep where loop: "impute_loop False ?cs df [] = (df', rep)"
    using assms(4) by (auto simp: handle_missing_values_def Let_def split: prod.splits)
  have "column_of df' c = Some (spec_impute col)"
    using impute_loop_column[OF loop, of c] assms(1,2,3) by (simp add: impute_step_spec)
  moreover have "isna_sum (spec_impute col) = 0"
    using assms(2) by (rule isna_sum_spec_impute)
  ultimately show ?thesis by simp
qed

text \<open>With copy-on-write the frame that comes back is the frame that went in.\<close>

lemma handle_missing_values_cow_frame:
  assumes "handle_missing_values True report df columns = (df', report')"
  shows "df' = df"
proof -
  let ?cs = "case columns of None \<Rightarrow> default_columns_to_impute | Some cs \<Rightarrow> cs"
  obtain rep where "impute_loop True ?cs df [] = (df', rep)"
    using assms by (auto simp: handle_missing_values_def Let_def split: prod.splits)
  then show ?thesis by (rule impute_loop_cow_frame)
qed

text \<open>
  Claim C3 at a failing input. The source fills \<open>df[col]\<close> in place and never assigns
  it back, so on a library with copy-on-write nothing reaches the frame: on \<open>sample_df\<close>
  the GHI column, present and not entirely missing, still has its missing entry after
  \<open>handle_missing_values\<close>, while the report says that one value was imputed.
\<close>

theorem impute_copy_on_write_unfilled:
  "handle_missing_values True init_report sample_df None =
     (sample_df, init_report\<lparr>missing_values := Some [(''GHI'', 1), (''DNI'', 3)]\<rparr>) \<and>
   column_of sample_df ''GHI'' = Some (Floats [Some 1, None, Some 3]) \<and>
   isna_sum (Floats [Some 1, None, Some 3]) = 1"
  by (simp add: handle_missing_values_def default_columns_to_impute_def sample_df_def
        column_of_def fillna_inplace_def init_report_def)

text \<open>
  Claim C8, as amended. The code has no failure signal for a column whose entries are
  all missing: the median of nothing is NaN, filling with it changes nothing, so the
  column stays entirely missing, and it is recorded in the report with its full missing
  count like an imputed column. The loop goes on to the remaining named columns and
  records the missing count of each that has missing entries. This holds whichever
  library runs the code.
\<close>

theorem impute_entirely_missing:
  assumes "column_of df c = Some col"
    and "entirely_missing col"
    and "c \<in> set (case columns of None \<Rightarrow> default_columns_to_impute | Some cs \<Rightarrow> cs)"
    and "handle_missing_values copy_on_write report df columns = (df', report')"
  shows "column_of df' c = Some col \<and>
         (\<exists>missing_report. missing_values report' = Some missing_report \<and>
            map_of missing_report c = Some (col_len col) \<and>
            (\<forall>c' col'. c' \<in> set (case columns of None \<Rightarrow> default_columns_to_impute | Some cs \<Rightarrow> cs) \<and>
               column_of df c' = Some col' \<and> 0 < isna_sum col'
               \<longrightarrow> map_of missing_report c' = Some (isna_sum col')))"
proof -
  let ?cs = "case columns of None \<Rightarrow> default_columns_to_impute | Some cs \<Rightarrow> cs"
  obtain rep where loop: "impute_loop copy_on_write ?cs df [] = (df', rep)"
    and rep: "report' = report\<lparr>missing_values := Some rep\<rparr>"
    using assms(4) by (auto simp: handle_missing_values_def Let_def split: prod.splits)
  have "column_of df' c = Some col"
  proof (cases copy_on_write)
    case True
    with loop have "impute_loop True ?cs df [] = (df', rep)" by simp
    then have "df' = df" by (rule impute_loop_cow_frame)
    with assms(1) show ?thesis by simp
  next
    case False
    with loop have l: "impute_loop False ?cs df [] = (df', rep)" by simp
    show ?thesis
      using impute_loop_column[OF l, of c] assms(1,2,3) by (simp add: impute_step_missing)
  qed
  moreover have "map_of rep c = Some (col_len col)"
    using impute_loop_report_any[OF loop, of c] assms(1,3) isna_sum_entirely_missing[OF assms(2)]
    by simp
  moreover have "map_of rep c' = Some (isna_sum col')"
    if "c' \<in> set ?cs" "column_of df c' = Some col'" "0 < isna_sum col'" for c' col'
    using impute_loop_report_any[OF loop, of c'] that by simp
  ultimately show ?thesis using rep by simp
qed

theorem impute_entirely_missing_witness:
  "column_of (fst (handle_missing_values True init_report sample_df None)) ''DNI''
     = Some (Floats [None, None, None]) \<and>
   (\<exists>missing_report.
      missing_values (snd (handle_missing_values True init_report sample_df None))
        = Some missing_report \<and>
      map_of missing_report ''DNI'' = Some 3 \<and> map_of missing_report ''GHI'' = Some 1)"
proof -
  have 1: "column_of sample_df ''DNI'' = Some (Floats [None, None, None])"
    by (simp add: sample_df_def column_of_def)
  have 2: "entirely_missing (Floats [None, None, None])" by simp
  have 3: "''DNI'' \<in> set (case None of None \<Rightarrow> default_columns_to_impute | Some cs \<Rightarrow> cs)"
    by (simp add: default_columns_to_impute_def)
  have 4: "''GHI'' \<in> set (case None of None \<Rightarrow> default_columns_to_impute | Some cs \<Rightarrow> cs) \<and>
           column_of sample_df ''GHI'' = Some (Floats [Some 1, None, Some 3]) \<and>
           0 < isna_sum (Floats [Some 1, None, Some 3])"
    by (simp add: default_columns_to_impute_def sample_df_def column_of_def)
  note t = impute_entirely_missing[where report = init_report and copy_on_write = True,
      OF 1 2 3 surjective_pairing]
  from t obtain rep where
    rep: "missing_values (snd (handle_missing_values True init_report sample_df None)) = Some rep"
    and dni: "map_of rep ''DNI'' = Some (col_len (Floats [None, None, None]))"
    and rest: "\<forall>c' col'. c' \<in> set (case None of None \<Rightarrow> default_columns_to_impute | Some cs \<Rightarrow> cs) \<and>
               column_of sample_df c' = Some col' \<and> 0 < isna_sum col'
               \<longrightarrow> map_of rep c' = Some (isna_sum col')"
    by blast
  from rest 4 have "map_of rep ''GHI'' = Some (isna_sum (Floats [Some 1, None, Some 3]))"
    by blast
  with t rep dni show ?thesis by (simp add: numeral_3_eq_3)
qed

text \<open>
  Claim C8 as stated fails on \<open>sample_df\<close>, whichever library runs the code: its DNI
  column is entirely missing, the call returns normally, DNI is neither skipped nor
  flagged but reported as 3 imputed values, and its cells are still missing.
\<close>

theorem impute_all_missing_counterexample:
  "handle_missing_values False init_report sample_df None =
     (\<lparr>nrows = 3,
       cols = [(''GHI'', Floats [Some 1, Some 2, Some 3]), (''DNI'', Floats [None, None, None])]\<rparr>,
      init_report\<lparr>missing_values := Some [(''GHI'', 1), (''DNI'', 3)]\<rparr>) \<and>
   handle_missing_values True init_report sample_df None =
     (\<lparr>nrows = 3,
       cols = [(''GHI'', Floats [Some 1, None, Some 3]), (''DNI'', Floats [None, None, None])]\<rparr>,
      init_report\<lparr>missing_values := Some [(''GHI'', 1), (''DNI'', 3)]\<rparr>)"
  by (simp add: handle_missing_values_def default_columns_to_impute_def sample_df_def
        column_of_def set_column_def col_median_def median_def init_report_def
        fillna_inplace_def)

subsection \<open>Z-scores\<close>

lemma mean_avg: "a \<noteq> [] \<Longrightarrow> mean a = Fin (avg a)"
  by (simp add: mean_def avg_def)

lemma std0_pvar: "a \<noteq> [] \<Longrightarrow> std 0 a = Fin (sqrt (pvar a))"
  by (simp add: std_def pvar_def avg_def)

lemma pvar_nonneg: "0 \<le> pvar a"
  by (auto simp: pvar_def intro!: divide_nonneg_nonneg sum_list_nonneg)

lemma pvar_zero:
  assumes "pvar a = 0" and "x \<in> set a"
  shows "x = avg a"
proof -
  from assms(2) have "a \<noteq> []" by auto
  with assms(1) have "sum_list (map (\<lambda>x. (x - avg a)\<^sup>2) a) = 0"
    by (simp add: pvar_def)
  then have "\<forall>y\<in>set (map (\<lambda>x. (x - avg a)\<^sup>2) a). y = 0"
    by (subst (asm) sum_list_nonneg_eq_0_iff) auto
  with assms(2) show ?thesis by auto
qed

lemma sq_less_iff: "0 \<le> u \<Longrightarrow> 0 \<le> w \<Longrightarrow> u < w \<longleftrightarrow> u\<^sup>2 < w\<^sup>2" for u w :: real
  by (auto intro: power_strict_mono power2_less_imp_less)

lemma zscore_test:
  assumes "x \<in> set a" and "0 \<le> t"
  shows "fgt (fabs (fdiv (fsub (Fin x) (mean a)) (std 0 a))) (Fin t)
           \<longleftrightarrow> t\<^sup>2 * pvar a < (x - avg a)\<^sup>2"
proof -
  from assms(1) have ne: "a \<noteq> []" by auto
  show ?thesis
  proof (cases "pvar a = 0")
    case True
    from pvar_zero[OF True assms(1)] have "x = avg a" .
    with True ne show ?thesis
      by (simp add: mean_avg std0_pvar fsub_def fgt_def)
  next
    case False
    with pvar_nonneg[of a] have pos: "0 < pvar a" by simp
    then have spos: "0 < sqrt (pvar a)" by simp
    have "t < \<bar>x - avg a\<bar> / sqrt (pvar a) \<longleftrightarrow> t * sqrt (pvar a) < \<bar>x - avg a\<bar>"
      using spos by (simp add: pos_less_divide_eq)
    also have "\<dots> \<longleftrightarrow> (t * sqrt (pvar a))\<^sup>2 < \<bar>x - avg a\<bar>\<^sup>2"
      using assms(2) spos by (intro sq_less_iff) auto
    also have "\<dots> \<longleftrightarrow> t\<^sup>2 * pvar a < (x - avg a)\<^sup>2"
      using pos by (simp add: power_mult_distrib)
    finally show ?thesis
      using ne False pvar_nonneg[of a] by (simp add: mean_avg std0_pvar fsub_def fgt_def)
  qed
qed

lemma outlier_mask_flag:
  "0 \<le> t \<Longrightarrow> outlier_mask xs (Fin t) = map (flag t (dropna xs)) (dropna xs)"
  by (simp add: outlier_mask_def zscore_def flag_def zscore_test)

lemma length_outlier_mask: "length (outlier_mask xs z) = length (dropna xs)"
  by (simp add: outlier_mask_def zscore_def)

lemma constant_list: "\<forall>x\<in>set a. x = k \<Longrightarrow> a = replicate (length a) k"
  by (induction a) auto


subsection \<open>Outlier detection\<close>

lemma detect_loop_report:
  "map_of (detect_loop cs df z rep) c =
     (case column_of df c of
        None \<Rightarrow> map_of rep c
      | Some col \<Rightarrow>
          (case numeric col of
             None \<Rightarrow> map_of rep c
           | Some xs \<Rightarrow>
               if c \<in> set cs then Some (length (filter (\<lambda>b. b) (outlier_mask xs z)))
               else map_of rep c))"
  by (induction cs arbitrary: rep) (auto simp: map_of_dict_set Let_def split: option.splits)

lemma zscore_constant:
  assumes "\<forall>x\<in>set a. x = k"
  shows "set (zscore a) \<subseteq> {NaN}"
proof (cases "a = []")
  case True
  then show ?thesis by (simp add: zscore_def)
next
  case False
  from assms have rep: "a = replicate (length a) k" by (rule constant_list)
  have "sum_list a = real (length a) * k"
    by (subst rep) (simp add: sum_list_replicate)
  with False have av: "avg a = k" by (simp add: avg_def)
  have "sum_list (map (\<lambda>x. (x - k)\<^sup>2) a) = 0"
    by (subst rep) (simp add: sum_list_replicate)
  then have pv: "pvar a = 0" by (simp add: pvar_def av)
  have "fdiv (fsub (Fin x) (mean a)) (std 0 a) = NaN" if "x \<in> set a" for x
    using that assms False by (simp add: mean_avg std0_pvar av pv fsub_def)
  then show ?thesis by (auto simp: zscore_def)
qed

lemma outlier_mask_constant:
  assumes "\<forall>x\<in>set (dropna xs). x = k"
  shows "filter (\<lambda>b. b) (outlier_mask xs z) = []"
  using zscore_constant[OF assms] by (auto simp: outlier_mask_def fgt_def filter_empty_conv)

text \<open>
  Claim C6. For a numeric column named in \<open>columns\<close> whose non-missing values all
  equal one constant, every z-score is \<open>0 / 0 = NaN\<close> (numpy divides without raising),
  no comparison with NaN holds, and \<open>detect_outliers\<close> reports 0 outliers for the
  column, whatever the threshold (NaN and the infinities included).
\<close>

theorem detect_outliers_constant_column:
  assumes "c \<in> set (case columns of None \<Rightarrow> default_outlier_columns | Some cs \<Rightarrow> cs)"
    and "column_of df c = Some col"
    and "numeric col = Some xs"
    and "\<forall>x\<in>set (dropna xs). x = k"
  shows "set (zscore (dropna xs)) \<subseteq> {NaN} \<and>
         map_of (detect_outliers df columns z_threshold) c = Some 0"
  using assms zscore_constant[OF assms(4)] outlier_mask_constant[OF assms(4)]
  by (simp add: detect_outliers_def detect_loop_report)

theorem detect_outliers_constant_column_witness:
  "set (zscore [5, 5, 5]) \<subseteq> {NaN} \<and> map_of (detect_outliers flat_df None (Fin 3)) ''GHI'' = Some 0"
proof -
  have 1: "''GHI'' \<in> set (case None of None \<Rightarrow> default_outlier_columns | Some cs \<Rightarrow> cs)"
    by (simp add: default_outlier_columns_def)
  have 2: "column_of flat_df ''GHI'' = Some (Floats [Some 5, Some 5, Some 5])"
    by (simp add: flat_df_def column_of_def)
  have 3: "numeric (Floats [Some 5, Some 5, Some 5]) = Some [Some 5, Some 5, Some 5]" by simp
  have 4: "\<forall>x\<in>set (dropna [Some 5, Some 5, Some 5]). x = 5" by simp
  show ?thesis
    using detect_outliers_constant_column[OF 1 2 3 4, of "Fin 3"] by simp
qed

subsection \<open>Row counts and well-formedness\<close>

lemma fst_dict_set:
  "map fst (dict_set d k v) = (if k \<in> fst ` set d then map fst d else map fst d @ [k])"
  by (induction d k v rule: dict_set.induct) auto

lemma distinct_dict_set: "distinct (map fst d) \<Longrightarrow> distinct (map fst (dict_set d k v))"
  by (simp add: fst_dict_set)

lemma list_all_dict_set: "list_all P d \<Longrightarrow> P (k, v) \<Longrightarrow> list_all P (dict_set d k v)"
  by (induction d k v rule: dict_set.induct) auto

lemma wf_set_column: "wf_df df \<Longrightarrow> col_len c = nrows df \<Longrightarrow> wf_df (set_column df k c)"
  by (simp add: wf_df_def set_column_def distinct_dict_set list_all_dict_set)

lemma nrows_set_column: "nrows (set_column df k c) = nrows df"
  by (simp add: set_column_def)

lemma wf_column_len:
  assumes "wf_df df" and "column_of df k = Some c"
  shows "col_len c = nrows df"
proof -
  from assms(2) have "(k, c) \<in> set (cols df)"
    by (auto simp: column_of_def dest: map_of_SomeD)
  with assms(1) show ?thesis by (auto simp: wf_df_def list_all_iff)
qed

lemma col_len_fillna: "col_len (fillna c m) = col_len c"
  by (cases c; cases m) simp_all

lemma col_len_impute_step: "col_len (impute_step c) = col_len c"
  by (simp add: impute_step_def col_len_fillna)

lemma impute_loop_wf: "impute_loop False cs df rep = (df', rep') \<Longrightarrow> wf_df df \<Longrightarrow> wf_df df'"
proof (induction cs arbitrary: df rep)
  case Nil
  then show ?case by simp
next
  case (Cons a cs)
  show ?case
  proof (cases "column_of df a")
    case None
    with Cons show ?thesis by (auto simp: impute_loop_Cons simp del: impute_loop.simps)
  next
    case (Some col)
    then have "wf_df (set_column df a (impute_step col))"
      using Cons.prems(2) by (simp add: wf_set_column col_len_impute_step wf_column_len)
    with Some Cons show ?thesis
      by (auto simp: impute_loop_Cons simp del: impute_loop.simps split: if_splits)
  qed
qed

lemma handle_missing_values_rows:
  assumes "handle_missing_values copy_on_write report df columns = (df', report')"
  shows "nrows df' = nrows df \<and> (wf_df df \<longrightarrow> wf_df df')"
proof -
  let ?cs = "case columns of None \<Rightarrow> default_columns_to_impute | Some cs \<Rightarrow> cs"
  obtain rep where loop: "impute_loop copy_on_write ?cs df [] = (df', rep)"
    using assms by (auto simp: handle_missing_values_def Let_def split: prod.splits)
  show ?thesis
  proof (cases copy_on_write)
    case True
    with loop have "impute_loop True ?cs df [] = (df', rep)" by simp
    then have "df' = df" by (rule impute_loop_cow_frame)
    then show ?thesis by simp
  next
    case False
    with loop have l: "impute_loop False ?cs df [] = (df', rep)" by simp
    show ?thesis using impute_loop_nrows[OF l] impute_loop_wf[OF l] by simp
  qed
qed

lemma derive_rows:
  assumes "derive df tc name f = Inr df'"
  shows "nrows df' = nrows df \<and> (wf_df df \<longrightarrow> wf_df df')"
proof -
  from assms obtain ts where ts: "column_of df tc = Some (Times ts)"
    and df': "df' = set_column df name (Ints (map f ts))"
    by (auto simp: derive_def dt_of_def split: sum.splits option.splits column.splits)
  have "wf_df df'" if "wf_df df"
    using wf_column_len[OF that ts] that unfolding df' by (intro wf_set_column) simp_all
  then show ?thesis by (simp add: df' nrows_set_column)
qed

lemma process_timestamp_rows:
  assumes "process_timestamp to_datetime df tc = Inr df'"
  shows "nrows df' = nrows df \<and>
         (wf_df df \<and> (\<forall>c ts. to_datetime c = Inr ts \<longrightarrow> length ts = col_len c) \<longrightarrow> wf_df df')"
proof (cases "column_of df tc")
  case None
  with assms show ?thesis by (simp add: process_timestamp_def)
next
  case (Some c)
  with assms obtain ts df1 df2 df3 where ts: "to_datetime c = Inr ts"
    and 1: "derive (set_column df tc (Times ts)) tc ''Hour'' dt_hour = Inr df1"
    and 2: "derive df1 tc ''Month'' dt_month = Inr df2"
    and 3: "derive df2 tc ''DayOfWeek'' dt_dayofweek = Inr df3"
    and 4: "derive df3 tc ''Season'' (\<lambda>t. (dt_month t mod 12 + 3) div 3) = Inr df'"
    by (auto simp: process_timestamp_def split: sum.splits)
  have n: "nrows df' = nrows df"
    using derive_rows[OF 1] derive_rows[OF 2] derive_rows[OF 3] derive_rows[OF 4]
    by (simp add: nrows_set_column)
  have "wf_df df'" if wf: "wf_df df" and len: "\<forall>c ts. to_datetime c = Inr ts \<longrightarrow> length ts = col_len c"
  proof -
    from len ts have "length ts = col_len c" by blast
    with wf Some have "wf_df (set_column df tc (Times ts))"
      by (intro wf_set_column) (simp_all add: wf_column_len)
    then show ?thesis
      using derive_rows[OF 1] derive_rows[OF 2] derive_rows[OF 3] derive_rows[OF 4] by blast
  qed
  with n show ?thesis by blast
qed

lemma length_pick: "length xs = length keep \<Longrightarrow> length (pick keep xs) = length (filter (\<lambda>b. b) keep)"
  unfolding pick_def by (induction xs keep rule: list_induct2) auto

lemma col_len_pick_column:
  "col_len c = length keep \<Longrightarrow> col_len (pick_column keep c) = length (filter (\<lambda>b. b) keep)"
  by (cases c) (simp_all add: length_pick)

lemma boolean_index_rows:
  assumes "boolean_index df keep = Inr df'"
  shows "nrows df' \<le> nrows df \<and> (wf_df df \<longrightarrow> wf_df df')"
proof -
  from assms have len: "length keep = nrows df"
    and df': "df' = \<lparr>nrows = length (filter (\<lambda>b. b) keep),
                     cols = map (\<lambda>(n, c). (n, pick_column keep c)) (cols df)\<rparr>"
    by (auto simp: boolean_index_def split: if_splits)
  have names: "map fst (map (\<lambda>(n, c). (n, pick_column keep c)) (cols df)) = map fst (cols df)"
    by (induction "cols df") auto
  have "nrows df' \<le> nrows df"
    using len length_filter_le[of "\<lambda>b. b" keep] by (simp add: df')
  moreover have "wf_df df'" if "wf_df df"
    using that len
    by (auto simp: wf_df_def df' names list_all_iff col_len_pick_column simp del: map_map)
  ultimately show ?thesis by blast
qed

lemma remove_loop_rows:
  "remove_loop cs df z = Inr df' \<Longrightarrow> nrows df' \<le> nrows df \<and> (wf_df df \<longrightarrow> wf_df df')"
proof (induction cs arbitrary: df)
  case Nil
  then show ?case by simp
next
  case (Cons a cs)
  show ?case
  proof (cases "column_of df a")
    case None
    with Cons show ?thesis by simp
  next
    case (Some c)
    with Cons.prems obtain xs where xs: "numeric c = Some xs"
      by (auto split: option.splits)
    show ?thesis
    proof (cases "True \<in> set (outlier_mask xs z)")
      case False
      with Some xs Cons show ?thesis by simp
    next
      case True
      with Some xs Cons.prems obtain df1 where
        1: "boolean_index df (map Not (outlier_mask xs z)) = Inr df1"
        and 2: "remove_loop cs df1 z = Inr df'"
        by (auto simp: Let_def split: sum.splits)
      from boolean_index_rows[OF 1] Cons.IH[OF 2] show ?thesis by auto
    qed
  qed
qed

lemma remove_outliers_rows:
  assumes "remove_outliers report df columns z = Inr (df', report')"
  shows "nrows df' \<le> nrows df \<and> (wf_df df \<longrightarrow> wf_df df')"
proof -
  let ?cs = "case columns of None \<Rightarrow> default_outlier_columns | Some cs \<Rightarrow> cs"
  from assms have "remove_loop ?cs df z = Inr df'"
    by (auto simp: remove_outliers_def Let_def split: sum.splits)
  then show ?thesis by (rule remove_loop_rows)
qed

lemma order_df_wf: "wf_df order_df"
  by (simp add: wf_df_def order_df_def)

lemma order_df_GHI_DNI:
  "remove_outliers init_report order_df None (Fin 3) =
     Inr (\<lparr>nrows = 10,
           cols =
             [(''Timestamp'', Strs [''02'', ''03'', ''04'', ''05'',
                               ''06'', ''07'', ''08'', ''09'', ''10'', ''11'']),
              (''GHI'', Floats [Some 0, Some 0, Some 0, Some 0, Some 0,
                          Some 0, Some 0, Some 0, Some 0, Some 0]),
              (''DNI'', Floats [Some 0, Some 0, Some 0, Some 0, Some 0,
                          Some 0, Some 0, Some 0, Some 0, Some 0])]\<rparr>,
          init_report\<lparr>outliers_removed := Some 2\<rparr>)"
  by (simp add: remove_outliers_def default_outlier_columns_def order_df_def column_of_def
        outlier_mask_flag flag_def pvar_def avg_def power2_eq_square boolean_index_def pick_def
        init_report_def)

lemma order_df_DNI_GHI:
  "remove_outliers init_report order_df (Some [''DNI'', ''GHI'']) (Fin 3) =
     Inr (\<lparr>nrows = 11,
           cols =
             [(''Timestamp'', Strs [''01'', ''02'', ''03'', ''04'', ''05'',
                               ''06'', ''07'', ''08'', ''09'', ''10'', ''11'']),
              (''GHI'', Floats [Some 0, Some 0, Some 0, Some 0, Some 0, Some 0,
                          Some 0, Some 0, Some 0, Some 0, Some 0]),
              (''DNI'', Floats [Some 10, Some 0, Some 0, Some 0, Some 0, Some 0,
                          Some 0, Some 0, Some 0, Some 0, Some 0])]\<rparr>,
          init_report\<lparr>outliers_removed := Some 1\<rparr>)"
  by (simp add: remove_outliers_def order_df_def column_of_def
        outlier_mask_flag flag_def pvar_def avg_def power2_eq_square boolean_index_def pick_def
        init_report_def)

subsection \<open>Outlier removal\<close>

lemma dropna_complete: "None \<notin> set xs \<Longrightarrow> map Some (dropna xs) = xs"
  by (induction xs rule: dropna.induct) simp_all

lemma outlier_mask_cells:
  assumes "None \<notin> set xs"
  shows "outlier_mask xs z = map (cell_outlier (dropna xs) z) xs"
proof -
  have "map (cell_outlier (dropna xs) z) (map Some (dropna xs)) = outlier_mask xs z"
    by (simp add: outlier_mask_def zscore_def cell_outlier_def comp_def)
  then show ?thesis by (simp add: dropna_complete[OF assms])
qed

lemma numeric_len: "numeric col = Some xs \<Longrightarrow> length xs = col_len col"
  by (cases col) auto

lemma pick_all: "length xs = length keep \<Longrightarrow> True \<notin> set (map Not keep) \<Longrightarrow> pick keep xs = xs"
  unfolding pick_def by (induction xs keep rule: list_induct2) auto

lemma pick_column_all:
  "length keep = col_len c \<Longrightarrow> True \<notin> set (map Not keep) \<Longrightarrow> pick_column keep c = c"
  by (cases c) (simp_all add: pick_all)

lemma filter_all: "True \<notin> set (map Not keep) \<Longrightarrow> filter (\<lambda>b. b) keep = keep"
  by (induction keep) auto

lemma boolean_index_all:
  assumes "wf_df df" and "length keep = nrows df" and "True \<notin> set (map Not keep)"
  shows "\<lparr>nrows = length (filter (\<lambda>b. b) keep),
          cols = map (\<lambda>(n, c). (n, pick_column keep c)) (cols df)\<rparr> = df"
proof -
  have "map (\<lambda>(n, c). (n, pick_column keep c)) (cols df) = map (\<lambda>x. x) (cols df)"
  proof (rule map_cong[OF refl])
    fix x assume "x \<in> set (cols df)"
    with assms(1,2) have "length keep = col_len (snd x)"
      by (auto simp: wf_df_def list_all_iff)
    then show "(case x of (n, c) \<Rightarrow> (n, pick_column keep c)) = x"
      using assms(3) by (cases x) (simp add: pick_column_all)
  qed
  then show ?thesis using assms(2,3) by (simp add: filter_all)
qed

lemma column_of_mapped:
  "column_of \<lparr>nrows = n, cols = map (\<lambda>(k, c). (k, f c)) (cols df)\<rparr> c = map_option f (column_of df c)"
  by (simp add: column_of_def map_of_map)

lemma pick_map: "pick keep (map g xs) = map g (pick keep xs)"
  unfolding pick_def by (induction xs arbitrary: keep) (auto simp: zip_Cons1 split: list.splits)

lemma set_pick: "set (pick keep xs) \<subseteq> set xs"
  unfolding pick_def by (auto dest: set_zip_leftD)

lemma numeric_pick_column: "numeric (pick_column keep c) = map_option (pick keep) (numeric c)"
  by (cases c) (simp_all add: pick_map)

lemma checked_complete_mapped:
  assumes "checked_complete df cs"
  shows "checked_complete \<lparr>nrows = n, cols = map (\<lambda>(k, c). (k, pick_column keep c)) (cols df)\<rparr> cs"
proof -
  have "case map_option (pick_column keep) (column_of df c) of
          None \<Rightarrow> True
        | Some col \<Rightarrow> (case numeric col of None \<Rightarrow> False | Some xs \<Rightarrow> None \<notin> set xs)"
    if "c \<in> set cs" for c
  proof (cases "column_of df c")
    case None
    then show ?thesis by simp
  next
    case (Some col)
    with assms that obtain xs where xs: "numeric col = Some xs" "None \<notin> set xs"
      by (auto simp: checked_complete_def list_all_iff split: option.splits)
    with set_pick[of keep xs] have "None \<notin> set (pick keep xs)" by blast
    with Some xs show ?thesis by (simp add: numeric_pick_column)
  qed
  then show ?thesis
    by (simp add: checked_complete_def list_all_iff column_of_mapped)
qed

lemma remove_loop_sequential:
  "wf_df df \<Longrightarrow> checked_complete df cs \<Longrightarrow> remove_loop cs df z = Inr (foldl (narrow z) df cs)"
proof (induction cs arbitrary: df)
  case Nil
  then show ?case by simp
next
  case (Cons a cs)
  from Cons.prems(2) have rest: "checked_complete df cs"
    by (simp add: checked_complete_def)
  show ?case
  proof (cases "column_of df a")
    case None
    with Cons rest show ?thesis by (simp add: narrow_def)
  next
    case (Some col)
    with Cons.prems(2) obtain xs where xs: "numeric col = Some xs" and full: "None \<notin> set xs"
      by (auto simp: checked_complete_def split: option.splits)
    let ?keep = "map (\<lambda>cell. \<not> cell_outlier (dropna xs) z cell) xs"
    let ?df1 = "\<lparr>nrows = length (filter (\<lambda>b. b) ?keep),
                 cols = map (\<lambda>(n, c). (n, pick_column ?keep c)) (cols df)\<rparr>"
    have mask: "map Not (outlier_mask xs z) = ?keep"
      by (simp add: outlier_mask_cells[OF full])
    have len: "length ?keep = nrows df"
      using numeric_len[OF xs] wf_column_len[OF Cons.prems(1) Some] by simp
    have nar: "narrow z df a = ?df1"
      using Some xs by (simp add: narrow_def)
    have bi: "boolean_index df ?keep = Inr ?df1"
      using len by (simp add: boolean_index_def)
    have wf1: "wf_df ?df1" using boolean_index_rows[OF bi] Cons.prems(1) by blast
    have cc1: "checked_complete ?df1 cs" using rest by (rule checked_complete_mapped)
    show ?thesis
    proof (cases "True \<in> set (outlier_mask xs z)")
      case True
      with Some xs mask bi show ?thesis
        using Cons.IH[OF wf1 cc1] by (simp add: nar Let_def)
    next
      case False
      then have "True \<notin> set (map Not ?keep)"
        by (simp add: outlier_mask_cells[OF full] comp_def)
      from boolean_index_all[OF Cons.prems(1) len this] have "?df1 = df" .
      with nar have "narrow z df a = df" by simp
      with False Some xs show ?thesis
        using Cons.IH[OF Cons.prems(1) rest] by simp
    qed
  qed
qed

lemma remove_outliers_sequential:
  assumes "wf_df df"
    and "checked_complete df (case columns of None \<Rightarrow> default_outlier_columns | Some cs \<Rightarrow> cs)"
  shows "remove_outliers report df columns z =
           (let cs = (case columns of None \<Rightarrow> default_outlier_columns | Some cs \<Rightarrow> cs);
                df' = foldl (narrow z) df cs
            in Inr (df', report\<lparr>outliers_removed := Some (int (nrows df) - int (nrows df'))\<rparr>))"
  using remove_loop_sequential[OF assms] by (simp add: remove_outliers_def Let_def)

text \<open>
  Claim C5. Imputation and timestamp processing return a table with as many rows as
  they were given, and outlier removal returns one with at most as many; each keeps
  the table well formed, so the row count is the length of every column (for
  \<open>process_timestamp\<close>, given a parser that returns one timestamp per cell). For the
  imputation this holds whether or not the library fills the frame.
\<close>

theorem row_count_never_grows:
  "(handle_missing_values copy_on_write report df columns_to_impute = (df1, report1)
      \<longrightarrow> nrows df1 = nrows df \<and> (wf_df df \<longrightarrow> wf_df df1)) \<and>
   (process_timestamp to_datetime df timestamp_col = Inr df2
      \<longrightarrow> nrows df2 = nrows df \<and>
          (wf_df df \<and> (\<forall>c ts. to_datetime c = Inr ts \<longrightarrow> length ts = col_len c) \<longrightarrow> wf_df df2)) \<and>
   (remove_outliers report df columns z_threshold = Inr (df3, report3)
      \<longrightarrow> nrows df3 \<le> nrows df \<and> (wf_df df \<longrightarrow> wf_df df3))"
  using handle_missing_values_rows[of copy_on_write report df columns_to_impute df1 report1]
    process_timestamp_rows[of to_datetime df timestamp_col df2]
    remove_outliers_rows[of report df columns z_threshold df3 report3]
  by blast

lemma sample_to_datetime_len: "sample_to_datetime c = Inr ts \<Longrightarrow> length ts = col_len c"
  by (cases c) (auto simp: sample_to_datetime_def)

lemma order_df_timestamp:
  "\<exists>df2. process_timestamp sample_to_datetime order_df ''Timestamp'' = Inr df2"
  by (simp add: process_timestamp_def order_df_def column_of_def sample_to_datetime_def
        derive_def dt_of_def set_column_def)

theorem row_count_never_grows_witness:
  "nrows (fst (handle_missing_values False init_report order_df None)) = 12 \<and>
   wf_df (fst (handle_missing_values False init_report order_df None)) \<and>
   (\<exists>df2. process_timestamp sample_to_datetime order_df ''Timestamp'' = Inr df2 \<and>
      nrows df2 = 12 \<and> wf_df df2) \<and>
   (\<exists>df3 report3. remove_outliers init_report order_df None (Fin 3) = Inr (df3, report3) \<and>
      nrows df3 \<le> 12 \<and> wf_df df3)"
proof -
  obtain df2 where 2: "process_timestamp sample_to_datetime order_df ''Timestamp'' = Inr df2"
    using order_df_timestamp by blast
  obtain df3 report3 where 3: "remove_outliers init_report order_df None (Fin 3) = Inr (df3, report3)"
    using order_df_GHI_DNI by blast
  have n: "nrows order_df = 12" by (simp add: order_df_def)
  have len: "\<forall>c ts. sample_to_datetime c = Inr ts \<longrightarrow> length ts = col_len c"
    using sample_to_datetime_len by blast
  from row_count_never_grows[of False init_report order_df None
      "fst (handle_missing_values False init_report order_df None)"
      "snd (handle_missing_values False init_report order_df None)"
      sample_to_datetime "''Timestamp''" df2 None "Fin 3" df3 report3]
  show ?thesis using 2 3 n len order_df_wf by auto
qed

lemma cell_outlier_flag:
  "0 \<le> t \<Longrightarrow> x \<in> set a \<Longrightarrow> cell_outlier a (Fin t) (Some x) = flag t a x"
  by (simp add: cell_outlier_def flag_def zscore_test)

text \<open>
  Claim C10. When every checked column that is present is numeric and has no missing
  cell, the mask of each checked column has one entry per row, entry \<open>i\<close> being the
  outlier test of row \<open>i\<close>, and \<open>remove_outliers\<close> returns a table. Without that
  precondition it is not total: in \<open>gap_df\<close> the ModA column has a missing cell and an
  outlier among its readings, the mask is one entry short of the row count, and the
  removal step raises instead of returning a filtered table.
\<close>

theorem remove_outliers_mask_alignment:
  "(wf_df df \<and> checked_complete df cs \<longrightarrow>
      (\<forall>c\<in>set cs. \<forall>col xs. column_of df c = Some col \<and> numeric col = Some xs \<longrightarrow>
          length (outlier_mask xs z) = nrows df \<and>
          outlier_mask xs z = map (cell_outlier (dropna xs) z) xs) \<and>
      (\<exists>df' report'. remove_outliers report df (Some cs) z = Inr (df', report'))) \<and>
   (\<exists>xs. column_of gap_df ''ModA'' = Some (Floats xs) \<and> None \<in> set xs \<and>
         True \<in> set (outlier_mask xs (Fin 3)) \<and>
         length (outlier_mask xs (Fin 3)) \<noteq> nrows gap_df) \<and>
   remove_outliers init_report gap_df (Some [''ModA'']) (Fin 3) = Inl ValueError"
proof (intro conjI impI)
  assume a: "wf_df df \<and> checked_complete df cs"
  show "\<forall>c\<in>set cs. \<forall>col xs. column_of df c = Some col \<and> numeric col = Some xs \<longrightarrow>
          length (outlier_mask xs z) = nrows df \<and>
          outlier_mask xs z = map (cell_outlier (dropna xs) z) xs"
  proof (intro ballI allI impI)
    fix c col xs
    assume c: "c \<in> set cs" and "column_of df c = Some col \<and> numeric col = Some xs"
    then have col: "column_of df c = Some col" and xs: "numeric col = Some xs" by simp_all
    from a c col xs have full: "None \<notin> set xs"
      by (auto simp: checked_complete_def list_all_iff)
    have "length xs = nrows df"
      using numeric_len[OF xs] wf_column_len[OF _ col] a by simp
    then show "length (outlier_mask xs z) = nrows df \<and>
          outlier_mask xs z = map (cell_outlier (dropna xs) z) xs"
      using outlier_mask_cells[OF full, of z] by simp
  qed
  from a show "\<exists>df' report'. remove_outliers report df (Some cs) z = Inr (df', report')"
    using remove_outliers_sequential[of df "Some cs" report z] by (simp add: Let_def)
next
  show "\<exists>xs. column_of gap_df ''ModA'' = Some (Floats xs) \<and> None \<in> set xs \<and>
         True \<in> set (outlier_mask xs (Fin 3)) \<and>
         length (outlier_mask xs (Fin 3)) \<noteq> nrows gap_df"
    by (simp add: gap_df_def column_of_def outlier_mask_flag flag_def pvar_def avg_def
          power2_eq_square)
next
  show "remove_outliers init_report gap_df (Some [''ModA'']) (Fin 3) = Inl ValueError"
    by (simp add: remove_outliers_def gap_df_def column_of_def outlier_mask_flag flag_def
          pvar_def avg_def power2_eq_square boolean_index_def)
qed

lemma order_df_complete: "checked_complete order_df [''GHI'', ''DNI'']"
  by (simp add: checked_complete_def order_df_def column_of_def)

theorem remove_outliers_mask_alignment_witness:
  "wf_df order_df \<and> checked_complete order_df [''GHI'', ''DNI''] \<and>
   length (outlier_mask [Some 100, Some 0, Some 0, Some 0, Some 0, Some 0,
                          Some 0, Some 0, Some 0, Some 0, Some 0, Some 0] (Fin 3)) = nrows order_df \<and>
   (\<exists>df' report'. remove_outliers init_report order_df (Some [''GHI'', ''DNI'']) (Fin 3) = Inr (df', report'))"
proof -
  have col: "column_of order_df ''GHI'' = Some (Floats [Some 100, Some 0, Some 0, Some 0, Some 0, Some 0,
                          Some 0, Some 0, Some 0, Some 0, Some 0, Some 0])"
    by (simp add: order_df_def column_of_def)
  from remove_outliers_mask_alignment[of order_df "[''GHI'', ''DNI'']" "Fin 3" init_report]
  show ?thesis using order_df_wf order_df_complete col by auto
qed

text \<open>
  Claim C2 at a failing input. \<open>gap_df\<close> has a gap and a spike in GHI and in ModA. Called
  on it directly, \<open>remove_outliers\<close> raises at GHI. In the pipeline, when the library
  fills the frame, the gap in GHI is imputed first, the GHI spike's row is removed, and
  the call raises at ModA, which is checked for outliers but never imputed; when the
  library does not fill the frame, the call raises at GHI as before. No table and no
  count is returned.
\<close>

theorem remove_outliers_gap_failure:
  "remove_outliers init_report gap_df None (Fin 3) = Inl ValueError \<and>
   (case handle_missing_values False init_report gap_df None of
      (df1, report1) \<Rightarrow> remove_outliers report1 df1 None (Fin 3)) = Inl ValueError \<and>
   (case handle_missing_values True init_report gap_df None of
      (df1, report1) \<Rightarrow> remove_outliers report1 df1 None (Fin 3)) = Inl ValueError"
proof (intro conjI)
  show "remove_outliers init_report gap_df None (Fin 3) = Inl ValueError"
    by (simp add: remove_outliers_def gap_df_def column_of_def outlier_mask_flag flag_def
          pvar_def avg_def power2_eq_square boolean_index_def default_outlier_columns_def)
  have imp: "handle_missing_values False init_report gap_df None =
     (\<lparr>nrows = 13,
      cols =
        [(''GHI'', Floats [Some 0, Some 100, Some 0, Some 0, Some 0, Some 0, Some 0,
                          Some 0, Some 0, Some 0, Some 0, Some 0, Some 0]),
         (''ModA'', Floats [None, Some 0, Some 100, Some 0, Some 0, Some 0, Some 0,
                           Some 0, Some 0, Some 0, Some 0, Some 0, Some 0])]\<rparr>,
      init_report\<lparr>missing_values := Some [(''GHI'', 1)]\<rparr>)"
    by (simp add: handle_missing_values_def default_columns_to_impute_def gap_df_def
          column_of_def set_column_def col_median_def median_def init_report_def
          fillna_inplace_def)
  show "(case handle_missing_values False init_report gap_df None of
      (df1, report1) \<Rightarrow> remove_outliers report1 df1 None (Fin 3)) = Inl ValueError"
    unfolding imp
    by (simp add: remove_outliers_def column_of_def outlier_mask_flag flag_def
          pvar_def avg_def power2_eq_square boolean_index_def default_outlier_columns_def pick_def)
  have cow: "handle_missing_values True init_report gap_df None =
     (gap_df, init_report\<lparr>missing_values := Some [(''GHI'', 1)]\<rparr>)"
    by (simp add: handle_missing_values_def default_columns_to_impute_def gap_df_def
          column_of_def init_report_def fillna_inplace_def)
  show "(case handle_missing_values True init_report gap_df None of
      (df1, report1) \<Rightarrow> remove_outliers report1 df1 None (Fin 3)) = Inl ValueError"
    unfolding cow
    by (simp add: remove_outliers_def gap_df_def column_of_def outlier_mask_flag flag_def
          pvar_def avg_def power2_eq_square boolean_index_def default_outlier_columns_def)
qed

text \<open>
  On tables that meet the precondition the removal is the sequential narrowing, so the
  order of the columns matters and a single combined pass gives another table: on
  \<open>order_df\<close> the order GHI, DNI leaves 10 rows, the order DNI, GHI leaves 11, and so
  does the combined pass.
\<close>

lemma remove_outliers_order_matters:
  "remove_outliers init_report order_df None (Fin 3)
     \<noteq> remove_outliers init_report order_df (Some [''DNI'', ''GHI'']) (Fin 3)"
  by (simp add: order_df_GHI_DNI order_df_DNI_GHI)

lemma single_pass_differs:
  "nrows (single_pass (Fin 3) order_df default_outlier_columns) = 11 \<and>
   (\<exists>df' report'. remove_outliers init_report order_df None (Fin 3) = Inr (df', report') \<and>
      nrows df' = 10)"
proof
  show "nrows (single_pass (Fin 3) order_df default_outlier_columns) = 11"
    by (simp add: single_pass_def flagged_rows_def order_df_def column_of_def
          default_outlier_columns_def cell_outlier_flag flag_def pvar_def avg_def
          power2_eq_square upt_rec[of _ "numeral _"] Let_def)
  show "\<exists>df' report'. remove_outliers init_report order_df None (Fin 3) = Inr (df', report') \<and>
      nrows df' = 10"
    by (simp add: order_df_GHI_DNI)
qed

section \<open>Properties of the analyzer\<close>

subsection \<open>Order of float values\<close>

lemma flt_irrefl: "\<not> flt a a"
  by (cases a) simp_all

lemma flt_trans: "flt a b \<Longrightarrow> flt b c \<Longrightarrow> flt a c"
  by (cases a; cases b; cases c) simp_all

lemma flt_total: "a \<noteq> NaN \<Longrightarrow> b \<noteq> NaN \<Longrightarrow> flt a b \<or> a = b \<or> flt b a"
  by (cases a; cases b) auto

lemma flt_asym: "flt a b \<Longrightarrow> \<not> flt b a"
  using flt_trans flt_irrefl by blast

lemma fmul_commute: "fmul a b = fmul b a"
  by (cases a; cases b) (simp_all add: mult.commute)

subsection \<open>Sorting\<close>

lemma set_insort_lt: "set (insort_lt key x ys) = insert x (set ys)"
  by (induction ys) auto

lemma set_sort_lt_aux: "set (foldl (\<lambda>acc x. insort_lt key x acc) acc xs) = set acc \<union> set xs"
  by (induction xs arbitrary: acc) (auto simp: set_insort_lt)

lemma set_sorted_reverse: "set (sorted_reverse key xs) = set xs"
  by (simp add: sorted_reverse_def sort_lt_def set_sort_lt_aux)

lemma length_insort_lt: "length (insort_lt key x ys) = Suc (length ys)"
  by (induction ys) auto

lemma length_sort_lt_aux: "length (foldl (\<lambda>acc x. insort_lt key x acc) acc xs) = length acc + length xs"
  by (induction xs arbitrary: acc) (auto simp: length_insort_lt)

lemma length_sorted_reverse: "length (sorted_reverse key xs) = length xs"
  by (simp add: sorted_reverse_def sort_lt_def length_sort_lt_aux)

lemma distinct_sorted_reverse:
  assumes "distinct (map f xs)"
  shows "distinct (map f (sorted_reverse key xs))"
proof -
  have "card (f ` set xs) = length xs"
    using assms by (simp add: distinct_card[of "map f xs", simplified])
  then have "card (set (map f (sorted_reverse key xs))) = length (map f (sorted_reverse key xs))"
    by (simp add: set_sorted_reverse length_sorted_reverse)
  then show ?thesis by (rule card_distinct)
qed

text \<open>Ascending order of the keys, for keys that are not NaN.\<close>

lemma sorted_insort_lt:
  assumes "sorted_wrt (\<lambda>a b. \<not> flt (key b) (key a)) ys"
    and "key x \<noteq> NaN" and "\<forall>y\<in>set ys. key y \<noteq> NaN"
  shows "sorted_wrt (\<lambda>a b. \<not> flt (key b) (key a)) (insort_lt key x ys)"
  using assms
proof (induction ys)
  case Nil
  then show ?case by simp
next
  case (Cons y ys)
  show ?case
  proof (cases "flt (key x) (key y)")
    case True
    have "\<not> flt (key z) (key x)" if "z \<in> set ys" for z
    proof
      assume "flt (key z) (key x)"
      from flt_trans[OF this True] have "flt (key z) (key y)" .
      with Cons.prems(1) that show False by auto
    qed
    with True Cons.prems show ?thesis by (auto dest: flt_asym)
  next
    case False
    with Cons show ?thesis by (auto simp: set_insort_lt)
  qed
qed

lemma filter_insort_lt:
  assumes "sorted_wrt (\<lambda>a b. \<not> flt (key b) (key a)) ys"
    and "key x \<noteq> NaN" and "\<forall>y\<in>set ys. key y \<noteq> NaN"
  shows "filter (\<lambda>e. key e = s) (insort_lt key x ys) = filter (\<lambda>e. key e = s) (ys @ [x])"
  using assms
proof (induction ys)
  case Nil
  then show ?case by simp
next
  case (Cons y ys)
  show ?case
  proof (cases "flt (key x) (key y)")
    case True
    have "key z \<noteq> key x" if "z \<in> set (y # ys)" for z
    proof
      assume eq: "key z = key x"
      show False
      proof (cases "z = y")
        case True
        with eq \<open>flt (key x) (key y)\<close> show False by (simp add: flt_irrefl)
      next
        case False
        with that Cons.prems(1) have "\<not> flt (key z) (key y)" by auto
        with eq \<open>flt (key x) (key y)\<close> show False by simp
      qed
    qed
    then have "filter (\<lambda>e. key e = key x) (y # ys) = []"
      by (auto simp: filter_empty_conv simp del: filter.simps)
    with True show ?thesis by (cases "key x = s") auto
  next
    case False
    with Cons show ?thesis by auto
  qed
qed

lemma sort_lt_aux:
  assumes "sorted_wrt (\<lambda>a b. \<not> flt (key b) (key a)) acc"
    and "\<forall>y\<in>set acc \<union> set xs. key y \<noteq> NaN"
  shows "sorted_wrt (\<lambda>a b. \<not> flt (key b) (key a)) (foldl (\<lambda>acc x. insort_lt key x acc) acc xs) \<and>
         filter (\<lambda>e. key e = s) (foldl (\<lambda>acc x. insort_lt key x acc) acc xs)
           = filter (\<lambda>e. key e = s) (acc @ xs)"
  using assms
proof (induction xs arbitrary: acc)
  case Nil
  then show ?case by simp
next
  case (Cons x xs)
  have 1: "sorted_wrt (\<lambda>a b. \<not> flt (key b) (key a)) (insort_lt key x acc)"
    using Cons.prems by (intro sorted_insort_lt) auto
  have 2: "\<forall>y\<in>set (insort_lt key x acc) \<union> set xs. key y \<noteq> NaN"
    using Cons.prems(2) by (auto simp: set_insort_lt)
  have 3: "filter (\<lambda>e. key e = s) (insort_lt key x acc) = filter (\<lambda>e. key e = s) (acc @ [x])"
    using Cons.prems by (intro filter_insort_lt) auto
  from Cons.IH[OF 1 2] 3 show ?case by simp
qed

lemma sorted_reverse_sorted:
  assumes "\<forall>y\<in>set xs. key y \<noteq> NaN"
  shows "sorted_wrt (\<lambda>a b. fge (key a) (key b)) (sorted_reverse key xs)"
proof -
  have s: "sorted_wrt (\<lambda>a b. \<not> flt (key b) (key a)) (sort_lt key (rev xs))"
    unfolding sort_lt_def using assms sort_lt_aux[of key "[]" "rev xs"] by simp
  have "set (sort_lt key (rev xs)) = set xs"
    by (simp add: sort_lt_def set_sort_lt_aux)
  with assms have nn: "\<forall>y\<in>set (sort_lt key (rev xs)). key y \<noteq> NaN" by simp
  have "sorted_wrt (\<lambda>a b. fge (key b) (key a)) (sort_lt key (rev xs))"
  proof (rule sorted_wrt_mono_rel[OF _ s])
    fix a b
    assume "a \<in> set (sort_lt key (rev xs))" "b \<in> set (sort_lt key (rev xs))"
      and "\<not> flt (key b) (key a)"
    with nn flt_total[of "key a" "key b"] show "fge (key b) (key a)"
      by (auto simp: fge_def)
  qed
  then show ?thesis by (simp add: sorted_reverse_def sorted_wrt_rev)
qed

lemma sorted_reverse_stable:
  assumes "\<forall>y\<in>set xs. key y \<noteq> NaN"
  shows "filter (\<lambda>e. key e = s) (sorted_reverse key xs) = filter (\<lambda>e. key e = s) xs"
proof -
  have "filter (\<lambda>e. key e = s) (sort_lt key (rev xs)) = filter (\<lambda>e. key e = s) (rev xs)"
    unfolding sort_lt_def using assms sort_lt_aux[of key "[]" "rev xs" s] by simp
  then show ?thesis by (simp add: sorted_reverse_def rev_filter[symmetric])
qed

subsection \<open>Ranking\<close>

lemma composite_spec: "composite m = spec_score m"
  by (simp add: composite_def spec_score_def fmul_commute)

lemma metrics_absent: "calculate_solar_potential_metrics df = Inr None \<longleftrightarrow> column_of df ''GHI'' = None"
  by (auto simp: calculate_solar_potential_metrics_def Let_def split: option.splits)

lemma metrics_numeric:
  "ghi_numeric df \<longleftrightarrow> (\<exists>m. calculate_solar_potential_metrics df = Inr m)"
  by (auto simp: ghi_numeric_def calculate_solar_potential_metrics_def Let_def split: option.splits)

lemma dict_set_append: "k \<notin> fst ` set d \<Longrightarrow> dict_set d k v = d @ [(k, v)]"
  by (induction d k v rule: dict_set.induct) auto

lemma ranked_Cons:
  "ranked ((c, df) # rest) = ranked rest \<or>
   (\<exists>m. calculate_solar_potential_metrics df = Inr (Some m) \<and>
        ranked ((c, df) # rest) = (c, ranking_of m) # ranked rest)"
  by (simp split: sum.splits option.splits)

lemma ranked_key: "(c, e) \<in> set (ranked d) \<Longrightarrow> c \<in> fst ` set d"
proof (induction d)
  case Nil
  then show ?case by simp
next
  case (Cons a d)
  obtain c' df where a: "a = (c', df)" by (cases a)
  from ranked_Cons[of c' df d] Cons a show ?case by auto
qed

lemma fst_ranked: "fst ` set (ranked d) \<subseteq> fst ` set d"
  using ranked_key by fastforce

lemma distinct_ranked: "distinct (map fst d) \<Longrightarrow> distinct (map fst (ranked d))"
proof (induction d)
  case Nil
  then show ?case by simp
next
  case (Cons a d)
  obtain c df where a: "a = (c, df)" by (cases a)
  from Cons.prems a have "c \<notin> fst ` set (ranked d)"
    using fst_ranked[of d] by auto
  with ranked_Cons[of c df d] Cons a show ?case by auto
qed

lemma rank_loop_ranked:
  "distinct (map fst d) \<Longrightarrow> fst ` set r \<inter> fst ` set d = {} \<Longrightarrow>
   list_all (\<lambda>(country, df). ghi_numeric df) d \<Longrightarrow> rank_loop d r = Inr (r @ ranked d)"
proof (induction d arbitrary: r)
  case Nil
  then show ?case by simp
next
  case (Cons a d)
  obtain c df where a: "a = (c, df)" by (cases a)
  from Cons.prems a obtain m where m: "calculate_solar_potential_metrics df = Inr m"
    by (auto simp: metrics_numeric)
  show ?case
  proof (cases m)
    case None
    with m a Cons show ?thesis by auto
  next
    case (Some m')
    let ?r = "r @ [(c, ranking_of m')]"
    from Cons.prems(2) a have "c \<notin> fst ` set r" by auto
    then have ds: "dict_set r c (ranking_of m') = ?r" by (rule dict_set_append)
    have "fst ` set ?r \<inter> fst ` set d = {}" using Cons.prems(1,2) a by auto
    with Cons.IH[of ?r] Cons.prems have "rank_loop d ?r = Inr (?r @ ranked d)" by simp
    with m Some a ds show ?thesis by (simp add: ranking_of_def)
  qed
qed

lemma dict_of_aux:
  "distinct (map fst xs) \<Longrightarrow> fst ` set acc \<inter> fst ` set xs = {} \<Longrightarrow>
   foldl (\<lambda>d (k, v). dict_set d k v) acc xs = acc @ xs"
proof (induction xs arbitrary: acc)
  case Nil
  then show ?case by simp
next
  case (Cons x xs)
  obtain k v where x: "x = (k, v)" by (cases x)
  from Cons.prems x have "k \<notin> fst ` set acc" by auto
  then have "dict_set acc k v = acc @ [(k, v)]" by (rule dict_set_append)
  moreover have "fst ` set (acc @ [(k, v)]) \<inter> fst ` set xs = {}"
    using Cons.prems x by auto
  ultimately show ?case using Cons.IH[of "acc @ [(k, v)]"] Cons.prems(1) x by simp
qed

lemma dict_of_distinct: "distinct (map fst xs) \<Longrightarrow> dict_of xs = xs"
  using dict_of_aux[of xs "[]"] by (simp add: dict_of_def)

lemma rank_countries_ranked:
  assumes "distinct (map fst d)" and "list_all (\<lambda>(country, df). ghi_numeric df) d"
  shows "rank_countries d = Inr (sorted_reverse (\<lambda>x. composite_score (snd x)) (ranked d))"
proof -
  have "rank_loop d [] = Inr (ranked d)"
    using rank_loop_ranked[OF assms(1) _ assms(2), of "[]"] by simp
  moreover have "distinct (map fst (sorted_reverse (\<lambda>x. composite_score (snd x)) (ranked d)))"
    using distinct_ranked[OF assms(1)] by (rule distinct_sorted_reverse)
  ultimately show ?thesis by (simp add: rank_countries_def dict_of_distinct)
qed

lemma map_of_ranked:
  "distinct (map fst d) \<Longrightarrow> (c, df) \<in> set d \<Longrightarrow>
   map_of (ranked d) c =
     (case calculate_solar_potential_metrics df of
        Inr (Some m) \<Rightarrow> Some (ranking_of m)
      | _ \<Rightarrow> None)"
proof (induction d)
  case Nil
  then show ?case by simp
next
  case (Cons a d)
  obtain country df' where a: "a = (country, df')" by (cases a)
  from Cons.prems(1) a have fresh: "country \<notin> fst ` set d" by auto
  with fst_ranked[of d] have notin: "map_of (ranked d) country = None"
    by (auto simp: map_of_eq_None_iff)
  show ?case
  proof (cases "(c, df) = (country, df')")
    case True
    then have "c = country" "df = df'" by simp_all
    with notin a show ?thesis by (simp split: sum.splits option.splits)
  next
    case False
    with Cons.prems(2) a have in_d: "(c, df) \<in> set d" by auto
    with fresh have ne: "c \<noteq> country" by force
    from Cons.IH[OF _ in_d] Cons.prems(1) have
      ih: "map_of (ranked d) c =
        (case calculate_solar_potential_metrics df of
           Inr (Some m) \<Rightarrow> Some (ranking_of m) | _ \<Rightarrow> None)" by simp
    from ranked_Cons[of country df' d] show ?thesis
    proof
      assume "ranked ((country, df') # d) = ranked d"
      with ih a show ?thesis by simp
    next
      assume "\<exists>m. calculate_solar_potential_metrics df' = Inr (Some m) \<and>
        ranked ((country, df') # d) = (country, ranking_of m) # ranked d"
      then obtain m where "ranked ((country, df') # d) = (country, ranking_of m) # ranked d"
        by blast
      with ih a ne show ?thesis by simp
    qed
  qed
qed

lemma map_of_sorted_reverse:
  assumes "distinct (map fst xs)"
  shows "map_of (sorted_reverse key xs) = map_of xs"
proof (rule map_of_inject_set[THEN iffD2])
  show "distinct (map fst (sorted_reverse key xs))" using assms by (rule distinct_sorted_reverse)
  show "distinct (map fst xs)" by fact
  show "set (sorted_reverse key xs) = set xs" by (rule set_sorted_reverse)
qed

lemma low_metrics:
  "calculate_solar_potential_metrics low_df =
     Inr (Some \<lparr>average_ghi = Fin 3, std_ghi = Fin 2, cv_ghi = Fin (200 / 3), peak_ghi = Fin 5,
                peak_95th = Fin (24 / 5), consistency_score = Fin (100 / 3),
                operational_hours = 0, high_potential_hours = 0\<rparr>)"
  by (simp add: calculate_solar_potential_metrics_def low_df_def column_of_def mean_def std_def
        maximum_def quantile_def fsub_def power2_eq_square)

lemma high_metrics:
  "calculate_solar_potential_metrics high_df =
     Inr (Some \<lparr>average_ghi = Fin 6, std_ghi = Fin 4, cv_ghi = Fin (200 / 3), peak_ghi = Fin 10,
                peak_95th = Fin (48 / 5), consistency_score = Fin (100 / 3),
                operational_hours = 0, high_potential_hours = 0\<rparr>)"
  by (simp add: calculate_solar_potential_metrics_def high_df_def column_of_def mean_def std_def
        maximum_def quantile_def fsub_def power2_eq_square)

lemma bare_metrics: "calculate_solar_potential_metrics bare_df = Inr None"
  by (simp add: calculate_solar_potential_metrics_def bare_df_def column_of_def)

lemma rank_loop_numeric:
  "rank_loop d r = Inr r' \<Longrightarrow> list_all (\<lambda>(country, df). ghi_numeric df) d"
proof (induction d arbitrary: r)
  case Nil
  then show ?case by simp
next
  case (Cons a d)
  obtain c df where a: "a = (c, df)" by (cases a)
  from Cons.prems a obtain m where m: "calculate_solar_potential_metrics df = Inr m"
    by (auto split: sum.splits)
  then have "ghi_numeric df" by (auto simp: metrics_numeric)
  moreover from Cons.prems a m obtain r1 where "rank_loop d r1 = Inr r'"
    by (cases m) auto
  ultimately show ?case using Cons.IH a by auto
qed

lemma rank_countries_numeric:
  assumes "rank_countries d = Inr r"
  shows "list_all (\<lambda>(country, df). ghi_numeric df) d"
proof -
  from assms obtain r0 where "rank_loop d [] = Inr r0"
    by (auto simp: rank_countries_def split: sum.splits)
  then show ?thesis by (rule rank_loop_numeric)
qed

text \<open>
  Claim C1. For an input mapping (a dict, so the country names are distinct),
  \<open>rank_countries\<close> returns a ranking unless some GHI column is not numeric. In the
  ranking every country with metrics \<open>m\<close> has an entry holding \<open>m\<close> and the composite
  score \<open>0.4*averageGHI + 0.3*(100 - cv) + 0.2*highPotentialHours + 0.1*peak95\<close> of
  \<open>m\<close>; a country whose metrics result is empty, which is the case exactly when it has
  no GHI column, has no entry; and no other country is ranked.
\<close>

theorem rank_countries_composite_score:
  assumes "distinct (map fst d)"
  shows "((\<exists>r. rank_countries d = Inr r) = list_all (\<lambda>(country, df). ghi_numeric df) d) \<and>
         (\<forall>r. rank_countries d = Inr r \<longrightarrow>
            (\<forall>country df. (country, df) \<in> set d \<longrightarrow>
               (case calculate_solar_potential_metrics df of
                  Inr (Some m) \<Rightarrow>
                    (\<exists>e. map_of r country = Some e \<and> composite_score e = spec_score m \<and>
                         ranking_metrics e = m)
                | _ \<Rightarrow> map_of r country = None) \<and>
               ((calculate_solar_potential_metrics df = Inr None) = (column_of df ''GHI'' = None))) \<and>
            fst ` set r \<subseteq> fst ` set d)"
proof -
  have 1: "(\<exists>r. rank_countries d = Inr r) = list_all (\<lambda>(country, df). ghi_numeric df) d"
    using rank_countries_ranked[OF assms] rank_countries_numeric by blast
  have 2: "(\<forall>country df. (country, df) \<in> set d \<longrightarrow>
               (case calculate_solar_potential_metrics df of
                  Inr (Some m) \<Rightarrow>
                    (\<exists>e. map_of r country = Some e \<and> composite_score e = spec_score m \<and>
                         ranking_metrics e = m)
                | _ \<Rightarrow> map_of r country = None) \<and>
               ((calculate_solar_potential_metrics df = Inr None) = (column_of df ''GHI'' = None))) \<and>
            fst ` set r \<subseteq> fst ` set d"
    if ret: "rank_countries d = Inr r" for r
  proof -
    let ?r = "sorted_reverse (\<lambda>x. composite_score (snd x)) (ranked d)"
    have r: "r = ?r"
      using rank_countries_ranked[OF assms rank_countries_numeric[OF ret]] ret by simp
    have m: "map_of ?r = map_of (ranked d)"
      using distinct_ranked[OF assms] by (rule map_of_sorted_reverse)
    have a: "case calculate_solar_potential_metrics df of
            Inr (Some m) \<Rightarrow>
              (\<exists>e. map_of r country = Some e \<and> composite_score e = spec_score m \<and>
                   ranking_metrics e = m)
          | _ \<Rightarrow> map_of r country = None"
      if "(country, df) \<in> set d" for country df
      unfolding r using map_of_ranked[OF assms that]
      by (simp add: m ranking_of_def composite_spec split: sum.splits option.splits)
    have b: "fst ` set r \<subseteq> fst ` set d"
      unfolding r using fst_ranked[of d] by (simp add: set_sorted_reverse)
    from a b metrics_absent show ?thesis by blast
  qed
  from 1 2 show ?thesis by blast
qed

lemma rank_input_ok:
  "distinct (map fst rank_input)" "list_all (\<lambda>(country, df). ghi_numeric df) rank_input"
  by (simp_all add: rank_input_def ghi_numeric_def low_df_def high_df_def bare_df_def column_of_def)

theorem rank_countries_composite_score_witness:
  "\<exists>r. rank_countries rank_input = Inr r \<and>
     (\<exists>e. map_of r ''Benin'' = Some e \<and> composite_score e = Fin (292 / 25)) \<and>
     map_of r ''Togo'' = None \<and>
     (\<exists>e. map_of r ''Sierra_Leone'' = Some e \<and> composite_score e = Fin (334 / 25))"
proof -
  note t = rank_countries_composite_score[OF rank_input_ok(1)]
  from t rank_input_ok(2) obtain r where r: "rank_countries rank_input = Inr r"
    by blast
  with t have all: "\<And>country df. (country, df) \<in> set rank_input \<Longrightarrow>
              (case calculate_solar_potential_metrics df of
                 Inr (Some m) \<Rightarrow>
                   (\<exists>e. map_of r country = Some e \<and> composite_score e = spec_score m \<and>
                        ranking_metrics e = m)
               | _ \<Rightarrow> map_of r country = None)"
    by blast
  have 1: "\<exists>e. map_of r ''Benin'' = Some e \<and> composite_score e = Fin (292 / 25)"
    using all[of "''Benin''" low_df]
    by (auto simp: rank_input_def low_metrics spec_score_def fsub_def)
  have 2: "map_of r ''Togo'' = None"
    using all[of "''Togo''" bare_df] by (simp add: rank_input_def bare_metrics)
  have 3: "\<exists>e. map_of r ''Sierra_Leone'' = Some e \<and> composite_score e = Fin (334 / 25)"
    using all[of "''Sierra_Leone''" high_df]
    by (auto simp: rank_input_def high_metrics spec_score_def fsub_def)
  from r 1 2 3 show ?thesis by blast
qed

lemma filter_ranked:
  "distinct (map fst d) \<Longrightarrow>
   map fst (filter (\<lambda>x. P (snd x)) (ranked d)) =
     filter (\<lambda>c. \<exists>e. map_of (ranked d) c = Some e \<and> P e) (map fst d)"
proof (induction d)
  case Nil
  then show ?case by simp
next
  case (Cons a d)
  obtain c df where a: "a = (c, df)" by (cases a)
  from Cons.prems a have fresh: "c \<notin> fst ` set d" by auto
  with fst_ranked[of d] have notin: "map_of (ranked d) c = None"
    by (auto simp: map_of_eq_None_iff)
  from Cons have ih: "map fst (filter (\<lambda>x. P (snd x)) (ranked d)) =
     filter (\<lambda>c. \<exists>e. map_of (ranked d) c = Some e \<and> P e) (map fst d)" by simp
  from ranked_Cons[of c df d] show ?case
  proof
    assume "ranked ((c, df) # d) = ranked d"
    with ih notin a show ?thesis by simp
  next
    assume "\<exists>m. calculate_solar_potential_metrics df = Inr (Some m) \<and>
        ranked ((c, df) # d) = (c, ranking_of m) # ranked d"
    then obtain m where r: "ranked ((c, df) # d) = (c, ranking_of m) # ranked d" by blast
    have "filter (\<lambda>c'. \<exists>e. map_of ((c, ranking_of m) # ranked d) c' = Some e \<and> P e) (map fst d)
          = filter (\<lambda>c'. \<exists>e. map_of (ranked d) c' = Some e \<and> P e) (map fst d)"
      using fresh by (intro filter_cong) auto
    with ih a r show ?thesis by simp
  qed
qed

text \<open>
  Claim C4, as amended. When no composite score in the ranking is NaN, the ranking is
  sorted descending by composite score, each entry's score being at least the next
  one's, and for every score value the countries holding it appear in the order of the
  input mapping.
\<close>

theorem rank_countries_sorted_stable:
  assumes "distinct (map fst d)"
    and "rank_countries d = Inr r"
    and "\<forall>x\<in>set r. composite_score (snd x) \<noteq> NaN"
  shows "(\<forall>i. Suc i < length r \<longrightarrow>
            fge (composite_score (snd (r ! i))) (composite_score (snd (r ! Suc i)))) \<and>
         (\<forall>s. map fst (filter (\<lambda>x. composite_score (snd x) = s) r) =
              filter (\<lambda>c. \<exists>e. map_of r c = Some e \<and> composite_score e = s) (map fst d))"
proof -
  let ?key = "\<lambda>x::string \<times> ranking. composite_score (snd x)"
  have num: "list_all (\<lambda>(country, df). ghi_numeric df) d"
    using assms(2) by (rule rank_countries_numeric)
  from rank_countries_ranked[OF assms(1) num] assms(2)
  have r: "r = sorted_reverse ?key (ranked d)" by simp
  with assms(3) have nn: "\<forall>y\<in>set (ranked d). ?key y \<noteq> NaN"
    by (simp add: set_sorted_reverse)
  have srt: "sorted_wrt (\<lambda>a b. fge (?key a) (?key b)) r"
    unfolding r using nn by (rule sorted_reverse_sorted)
  have adj: "fge (?key (r ! i)) (?key (r ! Suc i))" if "Suc i < length r" for i
    using sorted_wrt_nth_less[OF srt, of i "Suc i"] that by simp
  have m: "map_of r = map_of (ranked d)"
    unfolding r using distinct_ranked[OF assms(1)] by (rule map_of_sorted_reverse)
  have "map fst (filter (\<lambda>x. ?key x = s) r) =
          filter (\<lambda>c. \<exists>e. map_of r c = Some e \<and> composite_score e = s) (map fst d)" for s
  proof -
    have "filter (\<lambda>x. ?key x = s) r = filter (\<lambda>x. ?key x = s) (ranked d)"
      unfolding r using nn by (rule sorted_reverse_stable)
    then show ?thesis
      using filter_ranked[OF assms(1), of "\<lambda>e. composite_score e = s"] by (simp add: m)
  qed
  with adj show ?thesis by blast
qed

lemma low_metrics_m: "calculate_solar_potential_metrics low_df = Inr (Some low_m)"
  by (simp add: low_metrics low_m_def)

lemma high_metrics_m: "calculate_solar_potential_metrics high_df = Inr (Some high_m)"
  by (simp add: high_metrics high_m_def)

lemma composite_low: "composite low_m = Fin (292 / 25)"
  by (simp add: composite_def low_m_def fsub_def)

lemma composite_high: "composite high_m = Fin (334 / 25)"
  by (simp add: composite_def high_m_def fsub_def)

lemma tie_ranking:
  "rank_countries tie_input =
     Inr [(''Sierra_Leone'', ranking_of high_m), (''Benin'', ranking_of low_m),
          (''Togo'', ranking_of low_m)]"
proof -
  have d: "distinct (map fst tie_input)" by (simp add: tie_input_def)
  have n: "list_all (\<lambda>(country, df). ghi_numeric df) tie_input"
    by (simp add: tie_input_def ghi_numeric_def low_df_def high_df_def column_of_def)
  have k: "composite_score (ranking_of m) = composite m" for m by (simp add: ranking_of_def)
  show ?thesis
    unfolding rank_countries_ranked[OF d n]
    by (simp add: tie_input_def low_metrics_m high_metrics_m sorted_reverse_def sort_lt_def
          k composite_low composite_high)
qed

theorem rank_countries_sorted_stable_witness:
  "\<exists>r. rank_countries tie_input = Inr r \<and>
     map fst r = [''Sierra_Leone'', ''Benin'', ''Togo''] \<and>
     fge (composite_score (snd (r ! 0))) (composite_score (snd (r ! 1))) \<and>
     fge (composite_score (snd (r ! 1))) (composite_score (snd (r ! 2))) \<and>
     map fst (filter (\<lambda>x. composite_score (snd x) = Fin (292 / 25)) r) = [''Benin'', ''Togo'']"
proof -
  let ?r = "[(''Sierra_Leone'', ranking_of high_m), (''Benin'', ranking_of low_m),
          (''Togo'', ranking_of low_m)]"
  have d: "distinct (map fst tie_input)" by (simp add: tie_input_def)
  have k: "composite_score (ranking_of m) = composite m" for m by (simp add: ranking_of_def)
  have nn: "\<forall>x\<in>set ?r. composite_score (snd x) \<noteq> NaN"
    by (simp add: k composite_low composite_high)
  from rank_countries_sorted_stable[OF d tie_ranking nn]
  have adj: "\<forall>i. Suc i < length ?r \<longrightarrow>
        fge (composite_score (snd (?r ! i))) (composite_score (snd (?r ! Suc i)))"
    by blast
  from adj[rule_format, of 0] adj[rule_format, of 1]
  have "fge (composite_score (snd (?r ! 0))) (composite_score (snd (?r ! 1))) \<and>
        fge (composite_score (snd (?r ! 1))) (composite_score (snd (?r ! 2)))"
    by (simp add: numeral_2_eq_2)
  moreover have "map fst (filter (\<lambda>x. composite_score (snd x) = Fin (292 / 25)) ?r) = [''Benin'', ''Togo'']"
    by (simp add: k composite_low composite_high)
  ultimately show ?thesis using tie_ranking by auto
qed

lemma lone_metrics:
  "calculate_solar_potential_metrics lone_df =
     Inr (Some \<lparr>average_ghi = Fin 7, std_ghi = NaN, cv_ghi = NaN, peak_ghi = Fin 7,
                peak_95th = Fin 7, consistency_score = NaN,
                operational_hours = 0, high_potential_hours = 0\<rparr>)"
  by (simp add: calculate_solar_potential_metrics_def lone_df_def column_of_def mean_def std_def
        maximum_def quantile_def fsub_def)

text \<open>
  Claim C4 as stated fails on \<open>nan_input\<close>: Benin has a single GHI reading, so its
  standard deviation, its coefficient of variation and its composite score are NaN.
  Python's sort leaves it in front of Togo, and \<open>NaN >= 11.68\<close> is False.
\<close>

theorem rank_countries_nan_counterexample:
  "ranking_scores (rank_countries nan_input) = [(''Benin'', NaN), (''Togo'', Fin (292 / 25))] \<and>
   \<not> fge NaN (Fin (292 / 25))"
  by (simp add: ranking_scores_def rank_countries_def nan_input_def lone_metrics low_metrics_m
        composite_def low_m_def fsub_def sorted_reverse_def sort_lt_def dict_of_def fge_def)

lemma composite_NaN: "average_ghi m = NaN \<Longrightarrow> composite m = NaN"
  by (simp add: composite_def)

lemma mean_Nil: "mean [] = NaN"
  by (simp add: mean_def)

text \<open>
  Claim C9, as amended. \<open>calculate_solar_potential_metrics\<close> returns the empty mapping
  exactly when the GHI column is absent, and the countries that enter the composite
  score are exactly those with a GHI column. Nothing else is checked: a GHI column that
  is present without any reading gives metrics whose mean is NaN, and the composite
  score computed from them is NaN.
\<close>

theorem metrics_empty_iff_ghi_absent:
  "((calculate_solar_potential_metrics df = Inr None) = (column_of df ''GHI'' = None)) \<and>
   (distinct (map fst d) \<and> list_all (\<lambda>(country, df). ghi_numeric df) d \<longrightarrow>
      (\<exists>r. rank_countries d = Inr r \<and>
           fst ` set r = {country. \<exists>df. (country, df) \<in> set d \<and> column_of df ''GHI'' \<noteq> None})) \<and>
   (column_of df ''GHI'' = Some col \<and> numeric col = Some xs \<and> dropna xs = [] \<longrightarrow>
      (\<exists>m. calculate_solar_potential_metrics df = Inr (Some m) \<and> average_ghi m = NaN \<and>
           composite m = NaN))"
proof (intro conjI impI)
  show "(calculate_solar_potential_metrics df = Inr None) = (column_of df ''GHI'' = None)"
    by (rule metrics_absent)
next
  assume a: "distinct (map fst d) \<and> list_all (\<lambda>(country, df). ghi_numeric df) d"
  let ?r = "sorted_reverse (\<lambda>x. composite_score (snd x)) (ranked d)"
  from a have r: "rank_countries d = Inr ?r" by (simp add: rank_countries_ranked)
  have m: "map_of ?r = map_of (ranked d)"
    using a distinct_ranked by (intro map_of_sorted_reverse) blast
  have "country \<in> fst ` set ?r \<longleftrightarrow> (\<exists>df. (country, df) \<in> set d \<and> column_of df ''GHI'' \<noteq> None)"
    for country
  proof
    assume "country \<in> fst ` set ?r"
    then have in_ranked: "country \<in> fst ` set (ranked d)" by (simp add: set_sorted_reverse)
    with fst_ranked[of d] obtain df where df: "(country, df) \<in> set d" by auto
    from in_ranked have "map_of (ranked d) country \<noteq> None"
      by (simp add: map_of_eq_None_iff)
    with map_of_ranked[OF _ df] a have "calculate_solar_potential_metrics df \<noteq> Inr None"
      by auto
    with df show "\<exists>df. (country, df) \<in> set d \<and> column_of df ''GHI'' \<noteq> None"
      using metrics_absent by blast
  next
    assume "\<exists>df. (country, df) \<in> set d \<and> column_of df ''GHI'' \<noteq> None"
    then obtain df where df: "(country, df) \<in> set d" and ghi: "column_of df ''GHI'' \<noteq> None"
      by blast
    from a df have "ghi_numeric df" by (auto simp: list_all_iff)
    then obtain mo where mo: "calculate_solar_potential_metrics df = Inr mo"
      by (auto simp: metrics_numeric)
    with ghi metrics_absent[of df] obtain m0 where "mo = Some m0" by (cases mo) auto
    with mo map_of_ranked[OF _ df] a have "map_of (ranked d) country \<noteq> None" by simp
    then show "country \<in> fst ` set ?r"
      by (simp add: map_of_eq_None_iff set_sorted_reverse)
  qed
  with r show "\<exists>r. rank_countries d = Inr r \<and>
           fst ` set r = {country. \<exists>df. (country, df) \<in> set d \<and> column_of df ''GHI'' \<noteq> None}"
    by blast
next
  assume "column_of df ''GHI'' = Some col \<and> numeric col = Some xs \<and> dropna xs = []"
  then obtain m where m: "calculate_solar_potential_metrics df = Inr (Some m)"
    and avg: "average_ghi m = NaN"
    by (simp add: calculate_solar_potential_metrics_def mean_Nil)
  from avg have "composite m = NaN" by (rule composite_NaN)
  with m avg show "\<exists>m. calculate_solar_potential_metrics df = Inr (Some m) \<and> average_ghi m = NaN \<and>
           composite m = NaN"
    by blast
qed

text \<open>
  Claim C9 as stated fails on \<open>void_df\<close>: its GHI column is present with no reading,
  the metrics are not the empty mapping but NaN statistics and zero counts, and the
  country is ranked with the composite score NaN computed from them.
\<close>

theorem rank_countries_placeholder_counterexample:
  "calculate_solar_potential_metrics void_df =
     Inr (Some \<lparr>average_ghi = NaN, std_ghi = NaN, cv_ghi = NaN, peak_ghi = NaN,
                peak_95th = NaN, consistency_score = NaN,
                operational_hours = 0, high_potential_hours = 0\<rparr>) \<and>
   ranking_scores (rank_countries [(''Togo'', void_df)]) = [(''Togo'', NaN)]"
proof -
  have m: "calculate_solar_potential_metrics void_df =
     Inr (Some \<lparr>average_ghi = NaN, std_ghi = NaN, cv_ghi = NaN, peak_ghi = NaN,
                peak_95th = NaN, consistency_score = NaN,
                operational_hours = 0, high_potential_hours = 0\<rparr>)"
    by (simp add: calculate_solar_potential_metrics_def void_df_def column_of_def mean_def
          std_def maximum_def quantile_def fsub_def)
  have "ranking_scores (rank_countries [(''Togo'', void_df)]) = [(''Togo'', NaN)]"
    by (simp add: ranking_scores_def rank_countries_def m composite_def sorted_reverse_def
          sort_lt_def dict_of_def)
  with m show ?thesis by simp
qed

lemma rank_input_ghi:
  "{country. \<exists>df. (country, df) \<in> set rank_input \<and> column_of df ''GHI'' \<noteq> None}
     = {''Benin'', ''Sierra_Leone''}"
proof -
  have 1: "column_of low_df ''GHI'' \<noteq> None" by (simp add: low_df_def column_of_def)
  have 2: "column_of high_df ''GHI'' \<noteq> None" by (simp add: high_df_def column_of_def)
  have 3: "column_of bare_df ''GHI'' = None" by (simp add: bare_df_def column_of_def)
  have "(\<exists>df. (country, df) \<in> set rank_input \<and> column_of df ''GHI'' \<noteq> None)
          \<longleftrightarrow> country = ''Benin'' \<or> country = ''Sierra_Leone''" for country
    unfolding rank_input_def using 1 2 3 by fastforce
  then show ?thesis by blast
qed

theorem metrics_empty_iff_ghi_absent_witness:
  "(\<exists>r. rank_countries rank_input = Inr r \<and> fst ` set r = {''Benin'', ''Sierra_Leone''}) \<and>
   (\<exists>m. calculate_solar_potential_metrics void_df = Inr (Some m) \<and> average_ghi m = NaN \<and>
        composite m = NaN)"
proof -
  have col: "column_of void_df ''GHI'' = Some (Floats [None, None]) \<and>
             numeric (Floats [None, None]) = Some [None, None] \<and> dropna [None, None] = []"
    by (simp add: void_df_def column_of_def)
  have ok: "distinct (map fst rank_input) \<and> list_all (\<lambda>(country, df). ghi_numeric df) rank_input"
    using rank_input_ok by blast
  note t = metrics_empty_iff_ghi_absent[of void_df rank_input "Floats [None, None]" "[None, None]"]
  from t ok have "\<exists>r. rank_countries rank_input = Inr r \<and>
           fst ` set r = {country. \<exists>df. (country, df) \<in> set rank_input \<and> column_of df ''GHI'' \<noteq> None}"
    by blast
  then have a: "\<exists>r. rank_countries rank_input = Inr r \<and> fst ` set r = {''Benin'', ''Sierra_Leone''}"
    unfolding rank_input_ghi .
  from t col have b: "\<exists>m. calculate_solar_potential_metrics void_df = Inr (Some m) \<and>
      average_ghi m = NaN \<and> composite m = NaN"
    by blast
  from a b show ?thesis by blast
qed

subsection \<open>Country comparison\<close>

lemma sample_loop_keys:
  "distinct (map fst d) \<Longrightarrow> fst ` set acc \<inter> fst ` set d = {} \<Longrightarrow>
   map fst (sample_loop d metric acc) = map fst acc @ map fst (with_metric metric d)"
proof (induction d arbitrary: acc)
  case Nil
  then show ?case by (simp add: with_metric_def)
next
  case (Cons a d)
  obtain c df where a: "a = (c, df)" by (cases a)
  show ?case
  proof (cases "column_of df metric")
    case None
    with Cons a show ?thesis by (auto simp: with_metric_def)
  next
    case (Some col)
    let ?acc = "acc @ [(c, column_dropna col)]"
    from Cons.prems(2) a have "c \<notin> fst ` set acc" by auto
    then have ds: "dict_set acc c (column_dropna col) = ?acc" by (rule dict_set_append)
    have "fst ` set ?acc \<inter> fst ` set d = {}" using Cons.prems a by auto
    with Cons.IH[of ?acc] Cons.prems(1)
    have "map fst (sample_loop d metric ?acc) = map fst ?acc @ map fst (with_metric metric d)"
      by simp
    with Some a ds show ?thesis by (simp add: with_metric_def)
  qed
qed

lemma sample_loop_lookup:
  "distinct (map fst d) \<Longrightarrow> fst ` set acc \<inter> fst ` set d = {} \<Longrightarrow>
   (c, df) \<in> set d \<Longrightarrow> column_of df metric = Some col \<Longrightarrow>
   map_of (sample_loop d metric acc) c = Some (column_dropna col)"
proof (induction d arbitrary: acc)
  case Nil
  then show ?case by simp
next
  case (Cons a d)
  obtain c' df' where a: "a = (c', df')" by (cases a)
  from Cons.prems(1) a have fresh: "c' \<notin> fst ` set d" by auto
  have step: "\<exists>acc'. sample_loop (a # d) metric acc = sample_loop d metric acc' \<and>
                fst ` set acc' \<inter> fst ` set d = {} \<and>
                (c = c' \<and> df = df' \<longrightarrow> map_of acc' c = Some (column_dropna col))"
  proof (cases "column_of df' metric")
    case None
    with Cons.prems a show ?thesis by (intro exI[of _ acc]) auto
  next
    case (Some col')
    from Cons.prems(2) a have "c' \<notin> fst ` set acc" by auto
    then have ds: "dict_set acc c' (column_dropna col') = acc @ [(c', column_dropna col')]"
      by (rule dict_set_append)
    have "map_of (acc @ [(c', column_dropna col')]) c' = Some (column_dropna col')"
      using map_of_dict_set[of acc c' "column_dropna col'" c'] by (simp add: ds)
    with Some a ds fresh Cons.prems show ?thesis
      by (intro exI[of _ "acc @ [(c', column_dropna col')]"]) auto
  qed
  then obtain acc' where 1: "sample_loop (a # d) metric acc = sample_loop d metric acc'"
    and 2: "fst ` set acc' \<inter> fst ` set d = {}"
    and 3: "c = c' \<and> df = df' \<longrightarrow> map_of acc' c = Some (column_dropna col)"
    by blast
  show ?case
  proof (cases "(c, df) \<in> set d")
    case True
    from Cons.IH[OF _ 2 True Cons.prems(4)] Cons.prems(1) 1 show ?thesis by simp
  next
    case False
    with Cons.prems(3) a have eq: "c = c'" "df = df'" by auto
    with 3 have "map_of acc' c = Some (column_dropna col)" by simp
    moreover have "map_of (sample_loop d metric acc') c = map_of acc' c"
      using fresh eq(1)
    proof (induction d arbitrary: acc')
      case Nil
      then show ?case by simp
    next
      case (Cons b d)
      obtain cb dfb where b: "b = (cb, dfb)" by (cases b)
      with Cons.prems have ne: "cb \<noteq> c" by auto
      from Cons b have ih: "map_of (sample_loop d metric acc'') c = map_of acc'' c" for acc''
        by auto
      show ?case using b ne ih by (simp add: map_of_dict_set split: option.splits)
    qed
    ultimately show ?thesis using 1 by simp
  qed
qed

text \<open>
  Claim C7, as amended. The only test is the number of countries whose table has the
  metric column: with fewer than 2 the result is the empty mapping and no statistic is
  computed; with 2 or more the tests are run on every such country's sample, whether
  or not it holds any non-missing value, and the result (if the tests do not raise)
  lists each of them with its sample size.
\<close>

theorem compare_countries_guard:
  assumes "distinct (map fst d)"
  shows "((compare_countries_statistical f_oneway kruskal d metric = Inr None)
            = (length (with_metric metric d) < 2)) \<and>
         (\<forall>res. compare_countries_statistical f_oneway kruskal d metric = Inr (Some res) \<longrightarrow>
            countries res = map fst (with_metric metric d) \<and>
            (\<forall>c df col. (c, df) \<in> set d \<and> column_of df metric = Some col \<longrightarrow>
               map_of (sample_sizes res) c = Some (col_len (column_dropna col))))"
proof -
  let ?s = "sample_loop d metric []"
  have keys: "map fst ?s = map fst (with_metric metric d)"
    using sample_loop_keys[OF assms, of "[]" metric] by simp
  then have len: "length ?s = length (with_metric metric d)"
    by (metis length_map)
  have 1: "(compare_countries_statistical f_oneway kruskal d metric = Inr None)
            = (length (with_metric metric d) < 2)"
    by (simp add: compare_countries_statistical_def Let_def len split: sum.splits)
  have 2: "countries res = map fst (with_metric metric d) \<and>
            (\<forall>c df col. (c, df) \<in> set d \<and> column_of df metric = Some col \<longrightarrow>
               map_of (sample_sizes res) c = Some (col_len (column_dropna col)))"
    if res: "compare_countries_statistical f_oneway kruskal d metric = Inr (Some res)" for res
  proof -
    from res have c: "countries res = map fst ?s"
      and s: "sample_sizes res = map (\<lambda>(country, sample). (country, col_len sample)) ?s"
      by (auto simp: compare_countries_statistical_def Let_def split: sum.splits if_splits)
    have "map_of (sample_sizes res) c = Some (col_len (column_dropna col))"
      if "(c, df) \<in> set d" "column_of df metric = Some col" for c df col
      using sample_loop_lookup[OF assms _ that, of "[]"]
      by (simp add: s map_of_map)
    with c keys show ?thesis by auto
  qed
  from 1 2 show ?thesis by blast
qed

lemma compare_input_result:
  "compare_countries_statistical degenerate_test degenerate_test compare_input ''GHI'' =
     Inr (Some \<lparr>countries = [''Benin'', ''Togo''],
                sample_sizes = [(''Benin'', 0), (''Togo'', 3)],
                anova = \<lparr>stat = NaN, p_value = NaN, significant = False\<rparr>,
                kruskal_wallis = \<lparr>stat = NaN, p_value = NaN, significant = False\<rparr>\<rparr>)"
  by (simp add: compare_countries_statistical_def compare_input_def void_df_def low_df_def
        column_of_def degenerate_test_def summary_def)

theorem compare_countries_guard_witness:
  "length (with_metric ''GHI'' compare_input) = 2 \<and>
   (\<exists>res. compare_countries_statistical degenerate_test degenerate_test compare_input ''GHI''
            = Inr (Some res) \<and>
          countries res = [''Benin'', ''Togo''] \<and> map_of (sample_sizes res) ''Benin'' = Some 0)"
proof -
  have d: "distinct (map fst compare_input)" by (simp add: compare_input_def)
  have w: "with_metric ''GHI'' compare_input = compare_input"
    by (simp add: with_metric_def compare_input_def void_df_def low_df_def column_of_def)
  have n: "length compare_input = 2" "map fst compare_input = [''Benin'', ''Togo'']"
    by (simp_all add: compare_input_def)
  have v: "(''Benin'', void_df) \<in> set compare_input \<and>
           column_of void_df ''GHI'' = Some (Floats [None, None])"
    by (simp add: compare_input_def void_df_def column_of_def)
  obtain res where res: "compare_countries_statistical degenerate_test degenerate_test
      compare_input ''GHI'' = Inr (Some res)"
    using compare_input_result by blast
  note t = compare_countries_guard[OF d, of degenerate_test degenerate_test "''GHI''"]
  from t res have a: "countries res = map fst (with_metric ''GHI'' compare_input)"
    and b: "\<forall>c df col. (c, df) \<in> set compare_input \<and> column_of df ''GHI'' = Some col \<longrightarrow>
             map_of (sample_sizes res) c = Some (col_len (column_dropna col))"
    by blast+
  from b v have "map_of (sample_sizes res) ''Benin'' = Some (col_len (column_dropna (Floats [None, None])))"
    by blast
  with a res show ?thesis by (auto simp: w n)
qed

text \<open>
  Claim C7 as stated fails on \<open>compare_input\<close>: Benin's GHI column has no non-missing
  value, yet two countries have the column, the tests are run (on an empty sample the
  library answers NaN) and the result is not empty.
\<close>

theorem compare_countries_empty_sample_counterexample:
  "sample_loop compare_input ''GHI'' [] =
     [(''Benin'', Floats []), (''Togo'', Floats [Some 1, Some 3, Some 5])] \<and>
   compare_countries_statistical degenerate_test degenerate_test compare_input ''GHI''
     \<noteq> Inr None"
  by (simp add: compare_input_result)
    (simp add: compare_input_def void_df_def low_df_def column_of_def)

end
